theory Spec2Isabelle
  imports Main "HOL-Library.Sublist"
begin

section \<open>The batch helper\<close>

text \<open>
  \<^verbatim>\<open>arr.slice(start, end)\<close> on integer arguments: a negative index counts from the
  end of the array, both indices are clamped to the array, and an empty range gives the
  empty array.
\<close>

definition slice :: "'a list \<Rightarrow> int \<Rightarrow> int \<Rightarrow> 'a list" where
  "slice arr start end' =
     (let len = int (length arr);
          k = (if start < 0 then max (len + start) 0 else min start len);
          final = (if end' < 0 then max (len + end') 0 else min end' len)
      in take (nat (final - k)) (drop (nat k) arr))"

text \<open>
  \<^verbatim>\<open>
  function getBatches(arr, size) {
    const batches = [];
    for (let i = 0; i < arr.length; i += size) batches.push(arr.slice(i, i + size));
    return batches;
  }
  \<close>
  The loop has no bound of its own: it is a partial function, and \<open>None\<close> is the run that
  never leaves the loop. The batch size is an integer, as the callers pass it.
\<close>

partial_function (option) getBatches_loop ::
  "'a list \<Rightarrow> int \<Rightarrow> int \<Rightarrow> 'a list list \<Rightarrow> 'a list list option" where
  "getBatches_loop arr size' i batches =
     (if i < int (length arr)
      then getBatches_loop arr size' (i + size') (batches @ [slice arr i (i + size')])
      else Some batches)"

declare getBatches_loop.simps [code]

definition getBatches :: "'a list \<Rightarrow> int \<Rightarrow> 'a list list option" where
  "getBatches arr size' = getBatches_loop arr size' 0 []"

text \<open>
  The closed form of the loop for a positive size, used in the proofs only: cut \<open>n\<close>
  elements off the front until nothing is left.
\<close>

function chunks :: "nat \<Rightarrow> 'a list \<Rightarrow> 'a list list" where
  "chunks n xs = (if n = 0 \<or> xs = [] then [] else take n xs # chunks n (drop n xs))"
  by pat_completeness auto
termination
  by (relation "measure (\<lambda>(n, xs). length xs)") auto

declare chunks.simps [simp del]

section \<open>JSON values and the built-in conversions\<close>

text \<open>
  A decoded JSON value. An object is the list of its properties in property order; numbers
  are the integers (fractions are outside this model).
\<close>

datatype json =
    JNull
  | JBool bool
  | JNum int
  | JStr string
  | JArr "json list"
  | JObj "(string \<times> json) list"

type_synonym obj = "(string \<times> json) list"

text \<open>Decimal rendering of a number, as string conversion and template literals give it.\<close>

fun show_nat :: "nat \<Rightarrow> string" where
  "show_nat n =
     (if n < 10 then [''0123456789'' ! n] else show_nat (n div 10) @ [''0123456789'' ! (n mod 10)])"

declare show_nat.simps [simp del]

definition show_int :: "int \<Rightarrow> string" where
  "show_int n = (if n < 0 then CHR ''-'' # show_nat (nat (- n)) else show_nat (nat n))"

text \<open>One hexadecimal digit, for a value below 16 (half a byte).\<close>

definition hex_lower :: "nat \<Rightarrow> char" where
  "hex_lower d = ''0123456789abcdef'' ! d"

definition hex_upper :: "nat \<Rightarrow> char" where
  "hex_upper d = ''0123456789ABCDEF'' ! d"

text \<open>\<^verbatim>\<open>xs.join(sep)\<close> on an array of strings.\<close>

fun join :: "string \<Rightarrow> string list \<Rightarrow> string" where
  "join sep [] = []"
| "join sep [x] = x"
| "join sep (x # y # ys) = x @ sep @ join sep (y # ys)"

text \<open>
  \<^verbatim>\<open>JSON.stringify\<close> without indentation. In a string the quotation mark, the backslash
  and the control characters below U+0020 are escaped; every other byte is copied.
\<close>

definition escape_char :: "char \<Rightarrow> string" where
  "escape_char c =
     (let n = (of_char c :: nat) in
      if n = 0x22 then [CHR 0x5C, CHR 0x22]
      else if n = 0x5C then [CHR 0x5C, CHR 0x5C]
      else if n = 0x08 then [CHR 0x5C, CHR ''b'']
      else if n = 0x09 then [CHR 0x5C, CHR ''t'']
      else if n = 0x0A then [CHR 0x5C, CHR ''n'']
      else if n = 0x0C then [CHR 0x5C, CHR ''f'']
      else if n = 0x0D then [CHR 0x5C, CHR ''r'']
      else if n < 0x20 then [CHR 0x5C, CHR ''u'', CHR ''0'', CHR ''0'',
                              hex_lower (n div 16), hex_lower (n mod 16)]
      else [c])"

definition quote :: "string \<Rightarrow> string" where
  "quote s = CHR 0x22 # concat (map escape_char s) @ [CHR 0x22]"

fun JSON_stringify :: "json \<Rightarrow> string" where
  "JSON_stringify JNull = ''null''"
| "JSON_stringify (JBool b) = (if b then ''true'' else ''false'')"
| "JSON_stringify (JNum n) = show_int n"
| "JSON_stringify (JStr s) = quote s"
| "JSON_stringify (JArr xs) = ''['' @ join '','' (map JSON_stringify xs) @ '']''"
| "JSON_stringify (JObj kvs) =
     ''{'' @ join '','' (map (\<lambda>kv. quote (fst kv) @ '':'' @ JSON_stringify (snd kv)) kvs) @ ''}''"

text \<open>
  Truthiness, as \<^verbatim>\<open>!x\<close>, \<^verbatim>\<open>x ? a : b\<close>, \<^verbatim>\<open>while (x)\<close> and \<^verbatim>\<open>filter\<close> test it.
  \<open>None\<close> is \<^verbatim>\<open>undefined\<close>.
\<close>

fun truthy :: "json option \<Rightarrow> bool" where
  "truthy None = False"
| "truthy (Some JNull) = False"
| "truthy (Some (JBool b)) = b"
| "truthy (Some (JNum n)) = (n \<noteq> 0)"
| "truthy (Some (JStr s)) = (s \<noteq> [])"
| "truthy (Some (JArr xs)) = True"
| "truthy (Some (JObj kvs)) = True"

text \<open>The same test on a value that is a string or missing (an environment variable, a page token).\<close>

fun truthy_string :: "string option \<Rightarrow> bool" where
  "truthy_string None = False"
| "truthy_string (Some s) = (s \<noteq> [])"

text \<open>A string or \<^verbatim>\<open>undefined\<close> inside a template literal.\<close>

fun template :: "string option \<Rightarrow> string" where
  "template None = ''undefined''"
| "template (Some s) = s"

text \<open>
  \<^verbatim>\<open>Object.assign(target, source)\<close> on objects whose keys are ordinary property names:
  a key the target has keeps its place and takes the new value, a new key goes to the end.
\<close>

fun obj_set :: "obj \<Rightarrow> string \<Rightarrow> json \<Rightarrow> obj" where
  "obj_set [] k v = [(k, v)]"
| "obj_set ((k', v') # kvs) k v = (if k' = k then (k, v) # kvs else (k', v') # obj_set kvs k v)"

definition Object_assign :: "obj \<Rightarrow> obj \<Rightarrow> obj" where
  "Object_assign target source = foldl (\<lambda>t kv. obj_set t (fst kv) (snd kv)) target source"

section \<open>Query strings\<close>

text \<open>The scalars the fetchers put in a parameter object, and their string conversion.\<close>

datatype scalar = Str string | Num int | Bool bool

fun String :: "scalar \<Rightarrow> string" where
  "String (Str s) = s"
| "String (Num n) = show_int n"
| "String (Bool b) = (if b then ''true'' else ''false'')"

type_synonym params = "(string \<times> scalar) list"

text \<open>
  \<^verbatim>\<open>new URLSearchParams(params).toString()\<close>: the form-urlencoded serialisation of the
  properties in property order. Letters, digits and \<^verbatim>\<open>* - . _\<close> stay, a space becomes
  \<^verbatim>\<open>+\<close>, every other byte is percent-encoded with upper-case hexadecimal digits.
\<close>

definition urlencode_char :: "char \<Rightarrow> string" where
  "urlencode_char c =
     (let n = (of_char c :: nat) in
      if n = 0x20 then ''+''
      else if n = 0x2A \<or> n = 0x2D \<or> n = 0x2E \<or> n = 0x5F
            \<or> (0x30 \<le> n \<and> n \<le> 0x39) \<or> (0x41 \<le> n \<and> n \<le> 0x5A) \<or> (0x61 \<le> n \<and> n \<le> 0x7A)
           then [c]
      else [CHR ''%'', hex_upper (n div 16), hex_upper (n mod 16)])"

definition urlencode :: "string \<Rightarrow> string" where
  "urlencode s = concat (map urlencode_char s)"

definition URLSearchParams_toString :: "params \<Rightarrow> string" where
  "URLSearchParams_toString ps =
     join ''&'' (map (\<lambda>kv. urlencode (fst kv) @ ''='' @ urlencode (String (snd kv))) ps)"

section \<open>The request helper\<close>

text \<open>The process environment: a variable is a string or missing.\<close>

record env =
  ALPACA_API_KEY :: "string option"
  ALPACA_SECRET_KEY :: "string option"
  ALPACA_ENDPOINT :: "string option"
  ALPACA_BROKER_ENDPOINT :: "string option"

text \<open>
  What \<^verbatim>\<open>fetch\<close> is called with; \<open>method'\<close> is the option \<^verbatim>\<open>method\<close>.
\<close>

record http_call =
  url :: string
  method' :: string
  headers :: "(string \<times> string) list"

text \<open>
  What one call of \<^verbatim>\<open>fetch\<close> comes back with, as far as the helper looks at it:
  \<^item> \<open>Rejected m\<close>: the call itself throws an error with message \<open>m\<close> (transport failure);
  \<^item> \<open>NotOk status statusText body\<close>: a response whose \<^verbatim>\<open>ok\<close> is false;
  \<^item> \<open>Ok body\<close>: a response whose \<^verbatim>\<open>ok\<close> is true.

  A body is what \<^verbatim>\<open>res.json()\<close> gives: \<open>Inl m\<close> when decoding throws an error with
  message \<open>m\<close>, \<open>Inr v\<close> the decoded value. The body of a successful response is taken at
  the type \<open>'a\<close> the caller reads it at (\<^verbatim>\<open>request<T>\<close>); nothing validates it.
\<close>

datatype 'a fetched =
    Rejected string
  | NotOk nat string "string + json"
  | Ok "string + 'a"

text \<open>
  The network is the list of the outcomes the coming calls of \<^verbatim>\<open>fetch\<close> will have, in
  order; \<open>calls\<close> records every call made so far. A call for which the list holds no
  outcome never settles, and the run that awaits it never returns (\<open>None\<close>).
\<close>

record 'a world =
  pending :: "'a fetched list"
  calls :: "http_call list"

datatype error = Error (message: string)

text \<open>
  \<^verbatim>\<open>
  if (!res.ok) {
    const err = await res.json();
    throw new Error(`${res.status} ${res.statusText} - ${JSON.stringify(err)}`);
  }
  return res.json();
  \<close>
\<close>

fun response_result :: "'a fetched \<Rightarrow> error + 'a" where
  "response_result (Rejected m) = Inl (Error m)"
| "response_result (NotOk status statusText body) =
     (case body of
        Inl m \<Rightarrow> Inl (Error m)
      | Inr err \<Rightarrow> Inl (Error (show_nat status @ '' '' @ statusText @ '' - '' @ JSON_stringify err)))"
| "response_result (Ok body) =
     (case body of Inl m \<Rightarrow> Inl (Error m) | Inr v \<Rightarrow> Inr v)"

text \<open>
  The call the helper makes, for a base, a path, a method and a parameter object:
  \<^verbatim>\<open>
  const qs = new URLSearchParams(params).toString();
  const url = `${base}${path}${qs ? `?${qs}` : ""}`;
  const res = await fetch(url, {
    method,
    headers: {
      "APCA-API-KEY-ID": process.env.ALPACA_API_KEY,
      "APCA-API-SECRET-KEY": process.env.ALPACA_SECRET_KEY,
    },
  });
  \<close>
\<close>

definition fetch_call :: "env \<Rightarrow> string option \<Rightarrow> string \<Rightarrow> string \<Rightarrow> params \<Rightarrow> http_call" where
  "fetch_call e base path meth ps =
     (let qs = URLSearchParams_toString ps;
          url = template base @ path @ (if qs \<noteq> [] then ''?'' @ qs else [])
      in \<lparr>url = url, method' = meth,
          headers = [(''APCA-API-KEY-ID'', template (ALPACA_API_KEY e)),
                     (''APCA-API-SECRET-KEY'', template (ALPACA_SECRET_KEY e))]\<rparr>)"

text \<open>
  \<^verbatim>\<open>
  async function request({ base = process.env.ALPACA_ENDPOINT, path, method = "GET", params = {} }) {
    if (!process.env.ALPACA_API_KEY || !process.env.ALPACA_SECRET_KEY) {
      throw new Error("Alpaca credentials not configured. Set ALPACA_API_KEY and ALPACA_SECRET_KEY.");
    }
    ...
    const res = await fetch(url, ...);
    ...
  }
  \<close>
  An argument that is \<open>None\<close> is omitted or \<^verbatim>\<open>undefined\<close>, and takes its default. The
  rate limiter of the server script only delays the call and is left out.
\<close>

definition request ::
  "env \<Rightarrow> string option \<Rightarrow> string \<Rightarrow> string option \<Rightarrow> params option \<Rightarrow> 'a world
   \<Rightarrow> ((error + 'a) \<times> 'a world) option" where
  "request e base path meth params' w =
     (let base = (case base of None \<Rightarrow> ALPACA_ENDPOINT e | Some b \<Rightarrow> Some b);
          meth = (case meth of None \<Rightarrow> ''GET'' | Some m \<Rightarrow> m);
          params' = (case params' of None \<Rightarrow> [] | Some p \<Rightarrow> p)
      in
      if \<not> truthy_string (ALPACA_API_KEY e) \<or> \<not> truthy_string (ALPACA_SECRET_KEY e)
      then Some (Inl (Error
             ''Alpaca credentials not configured. Set ALPACA_API_KEY and ALPACA_SECRET_KEY.''), w)
      else
        case pending w of
          [] \<Rightarrow> None
        | res # rest \<Rightarrow>
            Some (response_result res,
                  \<lparr>pending = rest, calls = calls w @ [fetch_call e base path meth params']\<rparr>))"

section \<open>The four fetchers\<close>

text \<open>
  The result envelope; \<open>isError = False\<close> is the envelope without the flag, and
  \<open>text'\<close> is the field \<^verbatim>\<open>text\<close> of a content item.
\<close>

record content_item =
  type :: string
  text' :: string

record envelope =
  content :: "content_item list"
  isError :: bool

datatype asset_class = us_equity | crypto

fun asset_class_name :: "asset_class \<Rightarrow> string" where
  "asset_class_name us_equity = ''us_equity''"
| "asset_class_name crypto = ''crypto''"

text \<open>
  \<^verbatim>\<open>
  export async function getAssets({ assetClass = 'us_equity' }) {
    try {
      const data = await request<any[]>({ base: process.env.ALPACA_BROKER_ENDPOINT!, path: "/v1/assets",
        params: { status: "active", asset_class: assetClass } });
      const assets = data.filter((a: any) => a.tradable);
      return { content: [{ type: "text", text: JSON.stringify(assets) }] };
    } catch (err: any) {
      return { content: [{ type: "text", text: `Error fetching assets: ${err.message}` }], isError: true };
    }
  }
  \<close>
  The body is an array of asset records, each an object.
\<close>

definition getAssets ::
  "env \<Rightarrow> asset_class option \<Rightarrow> obj list world \<Rightarrow> (envelope \<times> obj list world) option" where
  "getAssets e assetClass w =
     (let assetClass = (case assetClass of None \<Rightarrow> us_equity | Some c \<Rightarrow> c) in
      case request e (ALPACA_BROKER_ENDPOINT e) ''/v1/assets'' None
             (Some [(''status'', Str ''active''),
                    (''asset_class'', Str (asset_class_name assetClass))]) w of
        None \<Rightarrow> None
      | Some (Inl err, w') \<Rightarrow>
          Some (\<lparr>content = [\<lparr>type = ''text'',
                               text' = ''Error fetching assets: '' @ message err\<rparr>],
                  isError = True\<rparr>, w')
      | Some (Inr data, w') \<Rightarrow>
          (let assets = filter (\<lambda>a. truthy (map_of a ''tradable'')) data in
           Some (\<lparr>content = [\<lparr>type = ''text'',
                                text' = JSON_stringify (JArr (map JObj assets))\<rparr>],
                   isError = False\<rparr>, w')))"

text \<open>
  A page of a paginated endpoint carries an optional continuation token (\<open>None\<close>: the
  property is missing or null); the bars endpoint adds the mapping from symbol to bars, the
  news endpoint the array of articles.
\<close>

record page =
  next_page_token :: "string option"

record bars_page = page +
  bars :: obj

record news_page = page +
  news :: "json list"

text \<open>
  The pagination loop of one batch:
  \<^verbatim>\<open>
  let pageToken: string | undefined;
  do {
    const params = { timeframe, limit: 10000, start, end, symbols: batch.join(",") };
    if (pageToken) params.page_token = pageToken;
    const resp = await request({ base: process.env.ALPACA_ENDPOINT!, path: "/v2/stocks/bars", params });
    Object.assign(result.bars, resp.bars);
    pageToken = resp.next_page_token;
  } while (pageToken);
  \<close>
  An error thrown by the helper leaves the loop at once (\<open>Inl\<close>). The parameter object
  of one round is \<open>bars_params\<close>.
\<close>

definition bars_params ::
  "string \<Rightarrow> string \<Rightarrow> string \<Rightarrow> string list \<Rightarrow> string option \<Rightarrow> params" where
  "bars_params timeframe start end' batch pageToken =
     (let params = [(''timeframe'', Str timeframe), (''limit'', Num 10000),
                    (''start'', Str start), (''end'', Str end'),
                    (''symbols'', Str (join '','' batch))]
      in case pageToken of
           None \<Rightarrow> params
         | Some t \<Rightarrow> if t \<noteq> [] then params @ [(''page_token'', Str t)] else params)"

function bars_pages ::
  "env \<Rightarrow> string \<Rightarrow> string \<Rightarrow> string \<Rightarrow> string list \<Rightarrow> string option \<Rightarrow> obj
   \<Rightarrow> bars_page world \<Rightarrow> ((error + obj) \<times> bars_page world) option" where
  "bars_pages e timeframe start end' batch pageToken result_bars w =
     (let params = bars_params timeframe start end' batch pageToken
      in case request e (ALPACA_ENDPOINT e) ''/v2/stocks/bars'' None (Some params) w of
           None \<Rightarrow> None
         | Some (Inl err, w') \<Rightarrow> Some (Inl err, w')
         | Some (Inr resp, w') \<Rightarrow>
             (let result_bars = Object_assign result_bars (bars resp);
                  pageToken = next_page_token resp
              in if truthy_string pageToken
                 then bars_pages e timeframe start end' batch pageToken result_bars w'
                 else Some (Inr result_bars, w')))"
  by pat_completeness auto
termination
  by (relation "measure (\<lambda>(e, timeframe, start, end', batch, pageToken, result_bars, w).
                           length (pending w))")
     (auto simp: request_def Let_def split: if_splits list.splits)

declare bars_pages.simps [simp del]

text \<open>\<^verbatim>\<open>for (const batch of batches) { ... }\<close>: one pagination loop after the other.\<close>

fun bars_batches ::
  "env \<Rightarrow> string \<Rightarrow> string \<Rightarrow> string \<Rightarrow> string list list \<Rightarrow> obj
   \<Rightarrow> bars_page world \<Rightarrow> ((error + obj) \<times> bars_page world) option" where
  "bars_batches e timeframe start end' [] result_bars w = Some (Inr result_bars, w)"
| "bars_batches e timeframe start end' (batch # batches) result_bars w =
     (case bars_pages e timeframe start end' batch None result_bars w of
        None \<Rightarrow> None
      | Some (Inl err, w') \<Rightarrow> Some (Inl err, w')
      | Some (Inr result_bars, w') \<Rightarrow> bars_batches e timeframe start end' batches result_bars w')"

text \<open>
  \<^verbatim>\<open>
  export async function getStockBars({ symbols, start, end, timeframe }) {
    try {
      const result = { bars: {} };
      for (const batch of getBatches(symbols, 2000)) { ... }
      return { content: [{ type: "text", text: JSON.stringify(result) }] };
    } catch (err: any) {
      return { content: [{ type: "text", text: `Error fetching stock bars: ${err.message}` }], isError: true };
    }
  }
  \<close>
\<close>

definition getStockBars ::
  "env \<Rightarrow> string list \<Rightarrow> string \<Rightarrow> string \<Rightarrow> string \<Rightarrow> bars_page world
   \<Rightarrow> (envelope \<times> bars_page world) option" where
  "getStockBars e symbols start end' timeframe w =
     (case getBatches symbols 2000 of
        None \<Rightarrow> None
      | Some batches \<Rightarrow>
          (case bars_batches e timeframe start end' batches [] w of
             None \<Rightarrow> None
           | Some (Inl err, w') \<Rightarrow>
               Some (\<lparr>content = [\<lparr>type = ''text'',
                                    text' = ''Error fetching stock bars: '' @ message err\<rparr>],
                       isError = True\<rparr>, w')
           | Some (Inr result_bars, w') \<Rightarrow>
               Some (\<lparr>content = [\<lparr>type = ''text'',
                                    text' = JSON_stringify (JObj [(''bars'', JObj result_bars)])\<rparr>],
                       isError = False\<rparr>, w')))"

text \<open>
  \<^verbatim>\<open>
  export async function getMarketDays({ start, end }) {
    try {
      const days = await request<any[]>({ base: process.env.ALPACA_ENDPOINT!, path: "/v2/calendar",
        params: { start, end } });
      return { content: [{ type: "text", text: JSON.stringify(days) }] };
    } catch (err: any) {
      return { content: [{ type: "text", text: `Error fetching market days: ${err.message}` }], isError: true };
    }
  }
  \<close>
\<close>

definition getMarketDays ::
  "env \<Rightarrow> string \<Rightarrow> string \<Rightarrow> json world \<Rightarrow> (envelope \<times> json world) option" where
  "getMarketDays e start end' w =
     (case request e (ALPACA_ENDPOINT e) ''/v2/calendar'' None
             (Some [(''start'', Str start), (''end'', Str end')]) w of
        None \<Rightarrow> None
      | Some (Inl err, w') \<Rightarrow>
          Some (\<lparr>content = [\<lparr>type = ''text'',
                               text' = ''Error fetching market days: '' @ message err\<rparr>],
                  isError = True\<rparr>, w')
      | Some (Inr days, w') \<Rightarrow>
          Some (\<lparr>content = [\<lparr>type = ''text'', text' = JSON_stringify days\<rparr>],
                  isError = False\<rparr>, w'))"

text \<open>
  The pagination loop of the news fetcher:
  \<^verbatim>\<open>
  const all: any[] = [];
  let pageToken: string | undefined;
  do {
    const params = pageToken
      ? { page_token: pageToken }
      : { sort: "desc", start, end, symbols: symbols.join(","), include_content: true };
    const resp = await request({ base: process.env.ALPACA_ENDPOINT!, path: "/v1beta1/news", params });
    all.push(...resp.news);
    pageToken = resp.next_page_token;
  } while (pageToken);
  \<close>
  The parameter object of one round is \<open>news_params\<close>.
\<close>

definition news_params :: "string \<Rightarrow> string \<Rightarrow> string list \<Rightarrow> string option \<Rightarrow> params" where
  "news_params start end' symbols pageToken =
     (let first = [(''sort'', Str ''desc''), (''start'', Str start), (''end'', Str end'),
                   (''symbols'', Str (join '','' symbols)), (''include_content'', Bool True)]
      in case pageToken of
           None \<Rightarrow> first
         | Some t \<Rightarrow> if t \<noteq> [] then [(''page_token'', Str t)] else first)"

function news_pages ::
  "env \<Rightarrow> string \<Rightarrow> string \<Rightarrow> string list \<Rightarrow> string option \<Rightarrow> json list
   \<Rightarrow> news_page world \<Rightarrow> ((error + json list) \<times> news_page world) option" where
  "news_pages e start end' symbols pageToken all w =
     (let params = news_params start end' symbols pageToken
      in case request e (ALPACA_ENDPOINT e) ''/v1beta1/news'' None (Some params) w of
           None \<Rightarrow> None
         | Some (Inl err, w') \<Rightarrow> Some (Inl err, w')
         | Some (Inr resp, w') \<Rightarrow>
             (let all = all @ news resp;
                  pageToken = next_page_token resp
              in if truthy_string pageToken
                 then news_pages e start end' symbols pageToken all w'
                 else Some (Inr all, w')))"
  by pat_completeness auto
termination
  by (relation "measure (\<lambda>(e, start, end', symbols, pageToken, all, w). length (pending w))")
     (auto simp: request_def Let_def split: if_splits list.splits)

declare news_pages.simps [simp del]

text \<open>
  \<^verbatim>\<open>
  export async function getNews({ start, end, symbols }) {
    try {
      ...
      return { content: [{ type: "text", text: JSON.stringify(all) }] };
    } catch (err: any) {
      return { content: [{ type: "text", text: `Error fetching news: ${err.message}` }], isError: true };
    }
  }
  \<close>
\<close>

definition getNews ::
  "env \<Rightarrow> string \<Rightarrow> string \<Rightarrow> string list \<Rightarrow> news_page world
   \<Rightarrow> (envelope \<times> news_page world) option" where
  "getNews e start end' symbols w =
     (case news_pages e start end' symbols None [] w of
        None \<Rightarrow> None
      | Some (Inl err, w') \<Rightarrow>
          Some (\<lparr>content = [\<lparr>type = ''text'',
                               text' = ''Error fetching news: '' @ message err\<rparr>],
                  isError = True\<rparr>, w')
      | Some (Inr all, w') \<Rightarrow>
          Some (\<lparr>content = [\<lparr>type = ''text'', text' = JSON_stringify (JArr all)\<rparr>],
                  isError = False\<rparr>, w'))"

section \<open>Batching: results\<close>

lemma chunks_Nil [simp]: "chunks n [] = []"
  by (simp add: chunks.simps)

lemma chunks_step: "0 < n \<Longrightarrow> xs \<noteq> [] \<Longrightarrow> chunks n xs = take n xs # chunks n (drop n xs)"
  by (subst chunks.simps) simp

lemma slice_in_range:
  "0 \<le> i \<Longrightarrow> 0 < s \<Longrightarrow> slice arr i (i + s) = take (nat s) (drop (nat i) arr)"
proof -
  assume i: "0 \<le> i" and s: "0 < s"
  let ?len = "int (length arr)"
  show ?thesis
  proof (cases "i \<le> ?len")
    case True
    have "take (nat (min (i + s) ?len - i)) (drop (nat i) arr) = take (nat s) (drop (nat i) arr)"
    proof (cases "i + s \<le> ?len")
      case True
      then show ?thesis by (simp add: min_def)
    next
      case False
      then have "length (drop (nat i) arr) \<le> nat (?len - i)" "nat (?len - i) \<le> nat s"
        using i by auto
      then show ?thesis using False by (simp add: min_def)
    qed
    then show ?thesis using i s True by (simp add: slice_def Let_def min_def)
  next
    case False
    then show ?thesis using i s by (simp add: slice_def Let_def min_def)
  qed
qed

lemma getBatches_loop_chunks:
  "0 < s \<Longrightarrow> 0 \<le> i \<Longrightarrow>
   getBatches_loop arr s i bs = Some (bs @ chunks (nat s) (drop (nat i) arr))"
proof (induction "length arr - nat i" arbitrary: i bs rule: less_induct)
  case less
  show ?case
  proof (cases "i < int (length arr)")
    case False
    then have "drop (nat i) arr = []" using less.prems by simp
    then show ?thesis using False by (subst getBatches_loop.simps) simp
  next
    case True
    then have ne: "drop (nat i) arr \<noteq> []" using less.prems by simp
    have dec: "length arr - nat (i + s) < length arr - nat i"
      using True less.prems by linarith
    have ih: "getBatches_loop arr s (i + s) (bs @ [slice arr i (i + s)]) =
              Some ((bs @ [slice arr i (i + s)]) @ chunks (nat s) (drop (nat (i + s)) arr))"
      using less.hyps [OF dec] less.prems by simp
    have dr: "drop (nat (i + s)) arr = drop (nat s) (drop (nat i) arr)"
      using less.prems by (simp add: nat_add_distrib add.commute)
    have ch: "chunks (nat s) (drop (nat i) arr) =
              take (nat s) (drop (nat i) arr) # chunks (nat s) (drop (nat s) (drop (nat i) arr))"
      using chunks_step [of "nat s" "drop (nat i) arr"] ne less.prems by simp
    show ?thesis
      using True ih dr ch slice_in_range [of i s arr] less.prems
      by (subst getBatches_loop.simps) simp
  qed
qed

lemma getBatches_chunks: "0 < s \<Longrightarrow> getBatches arr s = Some (chunks (nat s) arr)"
  using getBatches_loop_chunks [of s 0 arr "[]"] by (simp add: getBatches_def)

lemma chunks_eq_Nil: "0 < n \<Longrightarrow> chunks n xs = [] \<longleftrightarrow> xs = []"
  by (subst chunks.simps) simp

lemma concat_chunks: "0 < n \<Longrightarrow> concat (chunks n xs) = xs"
proof (induction n xs rule: chunks.induct)
  case (1 n xs)
  show ?case
  proof (cases "xs = []")
    case True
    then show ?thesis by simp
  next
    case False
    then show ?thesis using 1 by (simp add: chunks_step)
  qed
qed

lemma chunks_no_empty: "0 < n \<Longrightarrow> [] \<notin> set (chunks n xs)"
proof (induction n xs rule: chunks.induct)
  case (1 n xs)
  show ?case
  proof (cases "xs = []")
    case True
    then show ?thesis by simp
  next
    case False
    then show ?thesis using 1 by (simp add: chunks_step)
  qed
qed

lemma chunks_butlast: "0 < n \<Longrightarrow> b \<in> set (butlast (chunks n xs)) \<Longrightarrow> length b = n"
proof (induction n xs arbitrary: b rule: chunks.induct)
  case (1 n xs)
  show ?case
  proof (cases "xs = []")
    case True
    then show ?thesis using 1(3) by simp
  next
    case False
    note ne = this
    show ?thesis
    proof (cases "drop n xs = []")
      case True
      then show ?thesis using 1(3) ne 1(2) by (simp add: chunks_step)
    next
      case False
      then have "chunks n (drop n xs) \<noteq> []" using 1(2) by (simp add: chunks_eq_Nil)
      then have "b = take n xs \<or> b \<in> set (butlast (chunks n (drop n xs)))"
        using 1(3) ne 1(2) by (simp add: chunks_step)
      moreover have "length (take n xs) = n" using False by simp
      ultimately show ?thesis using 1(1) ne 1(2) by auto
    qed
  qed
qed

lemma chunks_last:
  "0 < n \<Longrightarrow> xs \<noteq> [] \<Longrightarrow>
   length (last (chunks n xs)) = (if length xs mod n = 0 then n else length xs mod n)"
proof (induction n xs rule: chunks.induct)
  case (1 n xs)
  show ?case
  proof (cases "drop n xs = []")
    case True
    then have le: "length xs \<le> n" by simp
    have "chunks n xs = [take n xs]" using 1(2,3) True by (simp add: chunks_step)
    then show ?thesis using le 1(2,3) by (cases "length xs = n") auto
  next
    case False
    then have gt: "n < length xs" by simp
    have ne: "chunks n (drop n xs) \<noteq> []" using False 1(2) by (simp add: chunks_eq_Nil)
    have "last (chunks n xs) = last (chunks n (drop n xs))"
      using 1(2,3) ne by (simp add: chunks_step)
    moreover have "(length xs - n) mod n = length xs mod n"
      using gt by (simp add: le_mod_geq)
    ultimately show ?thesis using 1(1) [OF _ 1(2) False] 1(2,3) by simp
  qed
qed

lemma getBatches_loop_diverges:
  assumes s: "s \<le> 0" and arr: "arr \<noteq> []" and i: "i \<le> 0"
  shows "getBatches_loop arr s i bs = None"
proof (rule ccontr)
  assume "getBatches_loop arr s i bs \<noteq> None"
  then obtain y where y: "getBatches_loop arr s i bs = Some y" by auto
  have "\<not> (s \<le> 0 \<and> arr \<noteq> [] \<and> i \<le> 0)"
  proof (rule getBatches_loop.raw_induct
      [where P = "\<lambda>arr s i bs y. \<not> (s \<le> 0 \<and> arr \<noteq> [] \<and> i \<le> 0)", OF _ y])
    fix f :: "'a list \<Rightarrow> int \<Rightarrow> int \<Rightarrow> 'a list list \<Rightarrow> 'a list list option"
    fix arr s i bs y
    assume ih: "\<And>arr s i bs y. f arr s i bs = Some y \<Longrightarrow> \<not> (s \<le> 0 \<and> arr \<noteq> [] \<and> i \<le> 0)"
    assume step: "(if i < int (length arr) then f arr s (i + s) (bs @ [slice arr i (i + s)])
                   else Some bs) = Some y"
    show "\<not> (s \<le> 0 \<and> arr \<noteq> [] \<and> i \<le> 0)"
    proof
      assume a: "s \<le> 0 \<and> arr \<noteq> [] \<and> i \<le> 0"
      then have "0 < length arr" by simp
      then have "i < int (length arr)" using a by linarith
      then have "f arr s (i + s) (bs @ [slice arr i (i + s)]) = Some y" using step by simp
      from ih [OF this] a show False by simp
    qed
  qed
  then show False using assms by simp
qed

text \<open>
  Claim C3. For every input sequence and every positive batch size \<open>S\<close>, \<open>getBatches\<close>
  returns, and its batches are consecutive pieces of the input: their concatenation in order
  is the input itself (nothing is dropped or reordered), every batch but the last has length
  exactly \<open>S\<close>, the last one has length \<open>N mod S\<close>, or \<open>S\<close> when \<open>N mod S = 0\<close>, and
  the empty input, and only it, gives no batch at all. The result is a function of the two
  arguments alone.
\<close>

theorem getBatches_partition:
  assumes "0 < S"
  shows "\<exists>bs. getBatches arr S = Some bs
           \<and> concat bs = arr
           \<and> (\<forall>b \<in> set (butlast bs). int (length b) = S)
           \<and> (bs \<noteq> [] \<longrightarrow>
                int (length (last bs)) =
                  (if int (length arr) mod S = 0 then S else int (length arr) mod S))
           \<and> (arr = [] \<longleftrightarrow> bs = [])"
proof -
  let ?n = "nat S"
  have n: "0 < ?n" and S: "S = int ?n" using assms by simp_all
  have md: "int (length arr) mod S = int (length arr mod ?n)"
    using assms by (simp add: zmod_int)
  have 1: "getBatches arr S = Some (chunks ?n arr)"
    using assms by (rule getBatches_chunks)
  have 2: "concat (chunks ?n arr) = arr"
    using n by (rule concat_chunks)
  have 3: "\<forall>b \<in> set (butlast (chunks ?n arr)). int (length b) = S"
  proof
    fix b assume "b \<in> set (butlast (chunks ?n arr))"
    then have "length b = ?n" using n by (rule chunks_butlast [rotated])
    then show "int (length b) = S" using assms by simp
  qed
  have 4: "chunks ?n arr \<noteq> [] \<longrightarrow>
           int (length (last (chunks ?n arr))) =
             (if int (length arr) mod S = 0 then S else int (length arr) mod S)"
  proof
    assume "chunks ?n arr \<noteq> []"
    then have "arr \<noteq> []" using n by (simp add: chunks_eq_Nil)
    from chunks_last [OF n this] show
      "int (length (last (chunks ?n arr))) =
         (if int (length arr) mod S = 0 then S else int (length arr) mod S)"
      using S md by simp
  qed
  have 5: "arr = [] \<longleftrightarrow> chunks ?n arr = []"
    using n by (simp add: chunks_eq_Nil)
  show ?thesis using 1 2 3 4 5 by blast
qed

theorem getBatches_partition_witness:
  "(0::int) < 2
   \<and> getBatches [1, 2, 3, 4, 5 :: nat] 2 = Some [[1, 2], [3, 4], [5]]
   \<and> (\<exists>bs. getBatches [1, 2, 3, 4, 5 :: nat] 2 = Some bs
         \<and> concat bs = [1, 2, 3, 4, 5]
         \<and> (\<forall>b \<in> set (butlast bs). int (length b) = 2)
         \<and> (bs \<noteq> [] \<longrightarrow>
              int (length (last bs)) =
                (if int (length [1, 2, 3, 4, 5 :: nat]) mod 2 = 0 then 2
                 else int (length [1, 2, 3, 4, 5 :: nat]) mod 2))
         \<and> ([1, 2, 3, 4, 5 :: nat] = [] \<longleftrightarrow> bs = []))"
proof -
  have h: "(0::int) < 2" by simp
  have v: "getBatches [1, 2, 3, 4, 5 :: nat] 2 = Some [[1, 2], [3, 4], [5]]"
    by (simp add: getBatches_def getBatches_loop.simps slice_def)
  show ?thesis
    using h v getBatches_partition [OF h, of "[1, 2, 3, 4, 5 :: nat]"] by blast
qed

text \<open>
  Claim C10. \<open>getBatches\<close> returns for every input array exactly when the batch size is
  positive. With a size of zero or below and an array that is not empty, the index starts at
  \<open>0\<close>, never grows, so never reaches the length of the array, and the loop does not
  end; the empty array is returned at once whatever the size.
\<close>

theorem getBatches_terminates_iff_positive:
  "(0 < S \<longrightarrow> (\<forall>arr :: 'a list. getBatches arr S \<noteq> None))
   \<and> (S \<le> 0 \<longrightarrow> (\<forall>arr :: 'a list. arr \<noteq> [] \<longrightarrow> getBatches arr S = None))
   \<and> ((\<forall>arr :: 'a list. getBatches arr S \<noteq> None) \<longleftrightarrow> 0 < S)
   \<and> getBatches ([] :: 'a list) S = Some []"
proof -
  have pos: "0 < S \<Longrightarrow> getBatches arr S \<noteq> None" for arr :: "'a list"
    by (simp add: getBatches_chunks)
  have neg: "S \<le> 0 \<Longrightarrow> arr \<noteq> [] \<Longrightarrow> getBatches arr S = None" for arr :: "'a list"
    unfolding getBatches_def by (rule getBatches_loop_diverges) simp_all
  have emp: "getBatches ([] :: 'a list) S = Some []"
    unfolding getBatches_def by (subst getBatches_loop.simps) simp
  have "\<not> 0 < S \<Longrightarrow> getBatches [undefined :: 'a] S = None"
    using neg [of "[undefined]"] by simp
  then have iff: "(\<forall>arr :: 'a list. getBatches arr S \<noteq> None) \<longleftrightarrow> 0 < S"
    using pos by blast
  show ?thesis using pos neg emp iff by blast
qed

theorem getBatches_terminates_iff_positive_witness:
  "getBatches [1 :: nat] 0 = None \<and> getBatches [1 :: nat] (- 3) = None
   \<and> getBatches [1 :: nat] 1 = Some [[1]] \<and> getBatches ([] :: nat list) 0 = Some []"
proof -
  have z: "(0::int) \<le> 0" and m: "(- 3 :: int) \<le> 0" and ne: "[1 :: nat] \<noteq> []" by simp_all
  have v: "getBatches [1 :: nat] 1 = Some [[1]]"
    by (simp add: getBatches_def getBatches_loop.simps slice_def)
  show ?thesis
    using z m ne v
      getBatches_terminates_iff_positive [where ?'a = nat and S = 0]
      getBatches_terminates_iff_positive [where ?'a = nat and S = "- 3"]
    by simp
qed

section \<open>The request helper and the fetchers: results\<close>

lemma request_missing_credentials:
  "\<not> truthy_string (ALPACA_API_KEY e) \<or> \<not> truthy_string (ALPACA_SECRET_KEY e) \<Longrightarrow>
   request e base path meth ps w =
     Some (Inl (Error ''Alpaca credentials not configured. Set ALPACA_API_KEY and ALPACA_SECRET_KEY.''), w)"
  unfolding request_def Let_def by (simp only: if_True)

lemma request_answered:
  "truthy_string (ALPACA_API_KEY e) \<Longrightarrow> truthy_string (ALPACA_SECRET_KEY e) \<Longrightarrow>
   pending w = r # rs \<Longrightarrow>
   request e base path meth ps w =
     Some (response_result r,
           \<lparr>pending = rs,
            calls = calls w @
              [fetch_call e (case base of None \<Rightarrow> ALPACA_ENDPOINT e | Some b \<Rightarrow> Some b) path
                 (case meth of None \<Rightarrow> ''GET'' | Some m \<Rightarrow> m)
                 (case ps of None \<Rightarrow> [] | Some p \<Rightarrow> p)]\<rparr>)"
  unfolding request_def Let_def by simp

lemma request_unanswered:
  "truthy_string (ALPACA_API_KEY e) \<Longrightarrow> truthy_string (ALPACA_SECRET_KEY e) \<Longrightarrow>
   pending w = [] \<Longrightarrow> request e base path meth ps w = None"
  unfolding request_def Let_def by simp

lemma join_Cons_nonempty: "x \<noteq> [] \<Longrightarrow> join sep (x # xs) \<noteq> []"
  by (cases xs) simp_all

lemma URLSearchParams_toString_nonempty: "ps \<noteq> [] \<Longrightarrow> URLSearchParams_toString ps \<noteq> []"
  by (cases ps) (simp_all add: URLSearchParams_toString_def join_Cons_nonempty)

lemma fetch_call_query:
  "ps \<noteq> [] \<Longrightarrow>
   fetch_call e base path meth ps =
     \<lparr>url = template base @ path @ ''?'' @ URLSearchParams_toString ps, method' = meth,
      headers = [(''APCA-API-KEY-ID'', template (ALPACA_API_KEY e)),
                 (''APCA-API-SECRET-KEY'', template (ALPACA_SECRET_KEY e))]\<rparr>"
  by (simp add: fetch_call_def Let_def URLSearchParams_toString_nonempty)

lemma stringify_empty_bars: \<open>JSON_stringify (JObj [(''bars'', JObj [])]) = ''{"bars":{}}''\<close>
  by (simp add: quote_def escape_char_def)

lemma getStockBars_empty:
  \<open>getStockBars e [] start end' timeframe w =
     Some (\<lparr>content = [\<lparr>type = ''text'', text' = ''{"bars":{}}''\<rparr>], isError = False\<rparr>, w)\<close>
proof -
  have "getBatches ([] :: string list) 2000 = Some []"
    unfolding getBatches_def by (subst getBatches_loop.simps) simp
  then show ?thesis
    unfolding getStockBars_def by (simp add: quote_def escape_char_def)
qed

lemma getStockBars_missing_credentials:
  assumes "\<not> truthy_string (ALPACA_API_KEY e) \<or> \<not> truthy_string (ALPACA_SECRET_KEY e)"
    and "symbols \<noteq> []"
  shows "getStockBars e symbols start end' timeframe w =
     Some (\<lparr>content = [\<lparr>type = ''text'', text' = ''Error fetching stock bars: '' @
              ''Alpaca credentials not configured. Set ALPACA_API_KEY and ALPACA_SECRET_KEY.''\<rparr>],
            isError = True\<rparr>, w)"
proof -
  have "getBatches symbols 2000 = Some (chunks 2000 symbols)"
    using getBatches_chunks [of 2000 symbols] by simp
  moreover obtain b bs where "chunks 2000 symbols = b # bs"
    using assms(2) chunks_eq_Nil [of 2000 symbols] by (cases "chunks 2000 symbols") auto
  moreover have "bars_pages e timeframe start end' b None [] w =
      Some (Inl (Error ''Alpaca credentials not configured. Set ALPACA_API_KEY and ALPACA_SECRET_KEY.''), w)"
    by (subst bars_pages.simps) (simp add: request_missing_credentials [OF assms(1)])
  ultimately show ?thesis
    unfolding getStockBars_def by simp
qed

lemma getNews_missing_credentials:
  assumes "\<not> truthy_string (ALPACA_API_KEY e) \<or> \<not> truthy_string (ALPACA_SECRET_KEY e)"
  shows "getNews e start end' symbols w =
     Some (\<lparr>content = [\<lparr>type = ''text'', text' = ''Error fetching news: '' @
              ''Alpaca credentials not configured. Set ALPACA_API_KEY and ALPACA_SECRET_KEY.''\<rparr>],
            isError = True\<rparr>, w)"
proof -
  have "news_pages e start end' symbols None [] w =
      Some (Inl (Error ''Alpaca credentials not configured. Set ALPACA_API_KEY and ALPACA_SECRET_KEY.''), w)"
    by (subst news_pages.simps) (simp add: request_missing_credentials [OF assms(1)])
  then show ?thesis
    unfolding getNews_def by simp
qed

lemma getAssets_missing_credentials:
  assumes "\<not> truthy_string (ALPACA_API_KEY e) \<or> \<not> truthy_string (ALPACA_SECRET_KEY e)"
  shows "getAssets e assetClass w =
     Some (\<lparr>content = [\<lparr>type = ''text'', text' = ''Error fetching assets: '' @
              ''Alpaca credentials not configured. Set ALPACA_API_KEY and ALPACA_SECRET_KEY.''\<rparr>],
            isError = True\<rparr>, w)"
  unfolding getAssets_def Let_def by (simp add: request_missing_credentials [OF assms(1)])

lemma getMarketDays_missing_credentials:
  assumes "\<not> truthy_string (ALPACA_API_KEY e) \<or> \<not> truthy_string (ALPACA_SECRET_KEY e)"
  shows "getMarketDays e start end' w =
     Some (\<lparr>content = [\<lparr>type = ''text'', text' = ''Error fetching market days: '' @
              ''Alpaca credentials not configured. Set ALPACA_API_KEY and ALPACA_SECRET_KEY.''\<rparr>],
            isError = True\<rparr>, w)"
  unfolding getMarketDays_def by (simp add: request_missing_credentials [OF assms(1)])

lemma default_base [simp]: "(case b of None \<Rightarrow> b | Some x \<Rightarrow> Some x) = b"
  by (cases b) simp_all

lemma news_pages_answer:
  assumes "truthy_string (ALPACA_API_KEY e)" and "truthy_string (ALPACA_SECRET_KEY e)"
    and "pending w = Ok (Inr p) # rs"
  shows "news_pages e start end' symbols tok all w =
     (if truthy_string (next_page_token p)
      then news_pages e start end' symbols (next_page_token p) (all @ news p)
             \<lparr>pending = rs, calls = calls w @
                [fetch_call e (ALPACA_ENDPOINT e) ''/v1beta1/news'' ''GET''
                   (news_params start end' symbols tok)]\<rparr>
      else Some (Inr (all @ news p),
             \<lparr>pending = rs, calls = calls w @
                [fetch_call e (ALPACA_ENDPOINT e) ''/v1beta1/news'' ''GET''
                   (news_params start end' symbols tok)]\<rparr>))"
  by (subst news_pages.simps) (simp add: request_answered [OF assms] Let_def)

lemma news_pages_failure:
  assumes "truthy_string (ALPACA_API_KEY e)" and "truthy_string (ALPACA_SECRET_KEY e)"
    and "pending w = f # rs" and "response_result f = Inl err"
  shows "news_pages e start end' symbols tok all w =
     Some (Inl err,
           \<lparr>pending = rs, calls = calls w @
              [fetch_call e (ALPACA_ENDPOINT e) ''/v1beta1/news'' ''GET''
                 (news_params start end' symbols tok)]\<rparr>)"
  by (subst news_pages.simps) (simp add: request_answered [OF assms(1-3)] assms(4) Let_def)

lemma news_pages_run:
  assumes c: "truthy_string (ALPACA_API_KEY e)" "truthy_string (ALPACA_SECRET_KEY e)"
  shows "ps \<noteq> [] \<Longrightarrow> \<forall>p \<in> set (butlast ps). truthy_string (next_page_token p) \<Longrightarrow>
     \<not> truthy_string (next_page_token (last ps)) \<Longrightarrow>
     pending w = map (\<lambda>p. Ok (Inr p)) ps @ rest \<Longrightarrow>
     news_pages e start end' symbols tok all w =
       Some (Inr (all @ concat (map news ps)),
             \<lparr>pending = rest, calls = calls w @
                map (\<lambda>t. fetch_call e (ALPACA_ENDPOINT e) ''/v1beta1/news'' ''GET''
                           (news_params start end' symbols t))
                    (tok # map next_page_token (butlast ps))\<rparr>)"
proof (induction ps arbitrary: tok all w)
  case Nil
  then show ?case by simp
next
  case (Cons p ps)
  have pw: "pending w = Ok (Inr p) # (map (\<lambda>p. Ok (Inr p)) ps @ rest)"
    using Cons.prems(4) by simp
  note step = news_pages_answer [OF c pw, of start end' symbols tok all]
  show ?case
  proof (cases ps)
    case Nil
    then show ?thesis using step Cons.prems(3) by simp
  next
    case (Cons q qs)
    then have ne: "ps \<noteq> []" by simp
    have t: "truthy_string (next_page_token p)" using Cons.prems(2) ne by simp
    have b: "\<forall>p \<in> set (butlast ps). truthy_string (next_page_token p)"
      using Cons.prems(2) ne by simp
    have l: "\<not> truthy_string (next_page_token (last ps))" using Cons.prems(3) ne by simp
    let ?w = "\<lparr>pending = map (\<lambda>p. Ok (Inr p)) ps @ rest, calls = calls w @
                [fetch_call e (ALPACA_ENDPOINT e) ''/v1beta1/news'' ''GET''
                   (news_params start end' symbols tok)]\<rparr>"
    have "pending ?w = map (\<lambda>p. Ok (Inr p)) ps @ rest" by simp
    from Cons.IH [OF ne b l this, of "next_page_token p" "all @ news p"]
    show ?thesis using step t ne by simp
  qed
qed

lemma news_pages_abort:
  assumes c: "truthy_string (ALPACA_API_KEY e)" "truthy_string (ALPACA_SECRET_KEY e)"
    and f: "response_result f = Inl err"
  shows "\<forall>p \<in> set gs. truthy_string (next_page_token p) \<Longrightarrow>
     pending w = map (\<lambda>p. Ok (Inr p)) gs @ f # rest \<Longrightarrow>
     news_pages e start end' symbols tok all w =
       Some (Inl err,
             \<lparr>pending = rest, calls = calls w @
                map (\<lambda>t. fetch_call e (ALPACA_ENDPOINT e) ''/v1beta1/news'' ''GET''
                           (news_params start end' symbols t))
                    (tok # map next_page_token gs)\<rparr>)"
proof (induction gs arbitrary: tok all w)
  case Nil
  then have "pending w = f # rest" by simp
  from news_pages_failure [OF c this f, of start end' symbols tok all]
  show ?case by simp
next
  case (Cons p gs)
  have pw: "pending w = Ok (Inr p) # (map (\<lambda>p. Ok (Inr p)) gs @ f # rest)"
    using Cons.prems(2) by simp
  note step = news_pages_answer [OF c pw, of start end' symbols tok all]
  have t: "truthy_string (next_page_token p)" using Cons.prems(1) by simp
  have b: "\<forall>p \<in> set gs. truthy_string (next_page_token p)" using Cons.prems(1) by simp
  let ?w = "\<lparr>pending = map (\<lambda>p. Ok (Inr p)) gs @ f # rest, calls = calls w @
              [fetch_call e (ALPACA_ENDPOINT e) ''/v1beta1/news'' ''GET''
                 (news_params start end' symbols tok)]\<rparr>"
  have "pending ?w = map (\<lambda>p. Ok (Inr p)) gs @ f # rest" by simp
  from Cons.IH [OF b this, of "next_page_token p" "all @ news p"]
  show ?case using step t by simp
qed

lemma bars_pages_answer:
  assumes "truthy_string (ALPACA_API_KEY e)" and "truthy_string (ALPACA_SECRET_KEY e)"
    and "pending w = Ok (Inr p) # rs"
  shows "bars_pages e timeframe start end' batch tok acc w =
     (if truthy_string (next_page_token p)
      then bars_pages e timeframe start end' batch (next_page_token p) (Object_assign acc (bars p))
             \<lparr>pending = rs, calls = calls w @
                [fetch_call e (ALPACA_ENDPOINT e) ''/v2/stocks/bars'' ''GET''
                   (bars_params timeframe start end' batch tok)]\<rparr>
      else Some (Inr (Object_assign acc (bars p)),
             \<lparr>pending = rs, calls = calls w @
                [fetch_call e (ALPACA_ENDPOINT e) ''/v2/stocks/bars'' ''GET''
                   (bars_params timeframe start end' batch tok)]\<rparr>))"
  by (subst bars_pages.simps) (simp add: request_answered [OF assms] Let_def)

lemma bars_pages_failure:
  assumes "truthy_string (ALPACA_API_KEY e)" and "truthy_string (ALPACA_SECRET_KEY e)"
    and "pending w = f # rs" and "response_result f = Inl err"
  shows "bars_pages e timeframe start end' batch tok acc w =
     Some (Inl err,
           \<lparr>pending = rs, calls = calls w @
              [fetch_call e (ALPACA_ENDPOINT e) ''/v2/stocks/bars'' ''GET''
                 (bars_params timeframe start end' batch tok)]\<rparr>)"
  by (subst bars_pages.simps) (simp add: request_answered [OF assms(1-3)] assms(4) Let_def)

lemma bars_pages_run:
  assumes c: "truthy_string (ALPACA_API_KEY e)" "truthy_string (ALPACA_SECRET_KEY e)"
  shows "ps \<noteq> [] \<Longrightarrow> \<forall>p \<in> set (butlast ps). truthy_string (next_page_token p) \<Longrightarrow>
     \<not> truthy_string (next_page_token (last ps)) \<Longrightarrow>
     pending w = map (\<lambda>p. Ok (Inr p)) ps @ rest \<Longrightarrow>
     bars_pages e timeframe start end' batch tok acc w =
       Some (Inr (foldl Object_assign acc (map bars ps)),
             \<lparr>pending = rest, calls = calls w @
                map (\<lambda>t. fetch_call e (ALPACA_ENDPOINT e) ''/v2/stocks/bars'' ''GET''
                           (bars_params timeframe start end' batch t))
                    (tok # map next_page_token (butlast ps))\<rparr>)"
proof (induction ps arbitrary: tok acc w)
  case Nil
  then show ?case by simp
next
  case (Cons p ps)
  have pw: "pending w = Ok (Inr p) # (map (\<lambda>p. Ok (Inr p)) ps @ rest)"
    using Cons.prems(4) by simp
  note step = bars_pages_answer [OF c pw, of timeframe start end' batch tok acc]
  show ?case
  proof (cases ps)
    case Nil
    then show ?thesis using step Cons.prems(3) by simp
  next
    case (Cons q qs)
    then have ne: "ps \<noteq> []" by simp
    have t: "truthy_string (next_page_token p)" using Cons.prems(2) ne by simp
    have b: "\<forall>p \<in> set (butlast ps). truthy_string (next_page_token p)"
      using Cons.prems(2) ne by simp
    have l: "\<not> truthy_string (next_page_token (last ps))" using Cons.prems(3) ne by simp
    let ?w = "\<lparr>pending = map (\<lambda>p. Ok (Inr p)) ps @ rest, calls = calls w @
                [fetch_call e (ALPACA_ENDPOINT e) ''/v2/stocks/bars'' ''GET''
                   (bars_params timeframe start end' batch tok)]\<rparr>"
    have "pending ?w = map (\<lambda>p. Ok (Inr p)) ps @ rest" by simp
    from Cons.IH [OF ne b l this, of "next_page_token p" "Object_assign acc (bars p)"]
    show ?thesis using step t ne by simp
  qed
qed

lemma bars_pages_abort:
  assumes c: "truthy_string (ALPACA_API_KEY e)" "truthy_string (ALPACA_SECRET_KEY e)"
    and f: "response_result f = Inl err"
  shows "\<forall>p \<in> set gs. truthy_string (next_page_token p) \<Longrightarrow>
     pending w = map (\<lambda>p. Ok (Inr p)) gs @ f # rest \<Longrightarrow>
     bars_pages e timeframe start end' batch tok acc w =
       Some (Inl err,
             \<lparr>pending = rest, calls = calls w @
                map (\<lambda>t. fetch_call e (ALPACA_ENDPOINT e) ''/v2/stocks/bars'' ''GET''
                           (bars_params timeframe start end' batch t))
                    (tok # map next_page_token gs)\<rparr>)"
proof (induction gs arbitrary: tok acc w)
  case Nil
  then have "pending w = f # rest" by simp
  from bars_pages_failure [OF c this f, of timeframe start end' batch tok acc]
  show ?case by simp
next
  case (Cons p gs)
  have pw: "pending w = Ok (Inr p) # (map (\<lambda>p. Ok (Inr p)) gs @ f # rest)"
    using Cons.prems(2) by simp
  note step = bars_pages_answer [OF c pw, of timeframe start end' batch tok acc]
  have t: "truthy_string (next_page_token p)" using Cons.prems(1) by simp
  have b: "\<forall>p \<in> set gs. truthy_string (next_page_token p)" using Cons.prems(1) by simp
  let ?w = "\<lparr>pending = map (\<lambda>p. Ok (Inr p)) gs @ f # rest, calls = calls w @
              [fetch_call e (ALPACA_ENDPOINT e) ''/v2/stocks/bars'' ''GET''
                 (bars_params timeframe start end' batch tok)]\<rparr>"
  have "pending ?w = map (\<lambda>p. Ok (Inr p)) gs @ f # rest" by simp
  from Cons.IH [OF b this, of "next_page_token p" "Object_assign acc (bars p)"]
  show ?case using step t by simp
qed


lemma bars_batches_append:
  "bars_batches e timeframe start end' (xs @ ys) acc w =
     (case bars_batches e timeframe start end' xs acc w of
        None \<Rightarrow> None
      | Some (Inl err, w') \<Rightarrow> Some (Inl err, w')
      | Some (Inr acc', w') \<Rightarrow> bars_batches e timeframe start end' ys acc' w')"
  by (induction xs arbitrary: acc w) (auto split: option.splits sum.splits prod.splits)

lemma bars_batches_run:
  assumes c: "truthy_string (ALPACA_API_KEY e)" "truthy_string (ALPACA_SECRET_KEY e)"
  shows "length pss = length batches \<Longrightarrow>
     \<forall>ps \<in> set pss. ps \<noteq> [] \<and> (\<forall>p \<in> set (butlast ps). truthy_string (next_page_token p))
        \<and> \<not> truthy_string (next_page_token (last ps)) \<Longrightarrow>
     pending w = map (\<lambda>p. Ok (Inr p)) (concat pss) @ rest \<Longrightarrow>
     bars_batches e timeframe start end' batches acc w =
       Some (Inr (foldl Object_assign acc (map bars (concat pss))),
             \<lparr>pending = rest, calls = calls w @
                concat (map2 (\<lambda>batch ps.
                   map (\<lambda>t. fetch_call e (ALPACA_ENDPOINT e) ''/v2/stocks/bars'' ''GET''
                              (bars_params timeframe start end' batch t))
                       (None # map next_page_token (butlast ps))) batches pss)\<rparr>)"
proof (induction batches arbitrary: pss acc w)
  case Nil
  then show ?case by simp
next
  case (Cons batch batches)
  then obtain ps pss' where pss: "pss = ps # pss'" by (cases pss) auto
  have len: "length pss' = length batches" using Cons.prems(1) pss by simp
  have ps: "ps \<noteq> []" "\<forall>p \<in> set (butlast ps). truthy_string (next_page_token p)"
    "\<not> truthy_string (next_page_token (last ps))"
    using Cons.prems(2) pss by simp_all
  have rest': "\<forall>ps \<in> set pss'. ps \<noteq> [] \<and> (\<forall>p \<in> set (butlast ps). truthy_string (next_page_token p))
        \<and> \<not> truthy_string (next_page_token (last ps))"
    using Cons.prems(2) pss by simp
  have pw: "pending w = map (\<lambda>p. Ok (Inr p)) ps @ (map (\<lambda>p. Ok (Inr p)) (concat pss') @ rest)"
    using Cons.prems(3) pss by simp
  note first = bars_pages_run [OF c ps pw, of timeframe start end' batch None acc]
  let ?w = "\<lparr>pending = map (\<lambda>p. Ok (Inr p)) (concat pss') @ rest, calls = calls w @
              map (\<lambda>t. fetch_call e (ALPACA_ENDPOINT e) ''/v2/stocks/bars'' ''GET''
                         (bars_params timeframe start end' batch t))
                  (None # map next_page_token (butlast ps))\<rparr>"
  have "pending ?w = map (\<lambda>p. Ok (Inr p)) (concat pss') @ rest" by simp
  from Cons.IH [OF len rest' this, of "foldl Object_assign acc (map bars ps)"]
  show ?case using first pss by simp
qed

lemma bars_batches_abort:
  assumes c: "truthy_string (ALPACA_API_KEY e)" "truthy_string (ALPACA_SECRET_KEY e)"
    and f: "response_result f = Inl err"
    and len: "length pss = length finished"
    and runs: "\<forall>ps \<in> set pss. ps \<noteq> [] \<and> (\<forall>p \<in> set (butlast ps). truthy_string (next_page_token p))
        \<and> \<not> truthy_string (next_page_token (last ps))"
    and gs: "\<forall>p \<in> set gs. truthy_string (next_page_token p)"
    and pw: "pending w = map (\<lambda>p. Ok (Inr p)) (concat pss @ gs) @ f # rest"
  shows "bars_batches e timeframe start end' (finished @ current # remaining) acc w =
       Some (Inl err,
             \<lparr>pending = rest, calls = calls w @
                concat (map2 (\<lambda>batch ps.
                   map (\<lambda>t. fetch_call e (ALPACA_ENDPOINT e) ''/v2/stocks/bars'' ''GET''
                              (bars_params timeframe start end' batch t))
                       (None # map next_page_token (butlast ps))) finished pss) @
                map (\<lambda>t. fetch_call e (ALPACA_ENDPOINT e) ''/v2/stocks/bars'' ''GET''
                           (bars_params timeframe start end' current t))
                    (None # map next_page_token gs)\<rparr>)"
proof -
  have pw': "pending w = map (\<lambda>p. Ok (Inr p)) (concat pss) @ (map (\<lambda>p. Ok (Inr p)) gs @ f # rest)"
    using pw by simp
  note d = bars_batches_run [OF c len runs pw', of timeframe start end' acc]
  let ?w = "\<lparr>pending = map (\<lambda>p. Ok (Inr p)) gs @ f # rest, calls = calls w @
                concat (map2 (\<lambda>batch ps.
                   map (\<lambda>t. fetch_call e (ALPACA_ENDPOINT e) ''/v2/stocks/bars'' ''GET''
                              (bars_params timeframe start end' batch t))
                       (None # map next_page_token (butlast ps))) finished pss)\<rparr>"
  have "pending ?w = map (\<lambda>p. Ok (Inr p)) gs @ f # rest" by simp
  from bars_pages_abort [OF c f gs this, of timeframe start end' current None
      "foldl Object_assign acc (map bars (concat pss))"]
  show ?thesis using d by (simp add: bars_batches_append)
qed

lemma map_of_obj_set: "map_of (obj_set t k v) = (map_of t)(k \<mapsto> v)"
  by (induction t k v rule: obj_set.induct) auto

lemma map_of_Object_assign_rev: "map_of (Object_assign t s) = map_of t ++ map_of (rev s)"
  unfolding Object_assign_def
proof (induction s arbitrary: t)
  case Nil
  then show ?case by simp
next
  case (Cons kv s)
  show ?case
    by (cases kv) (simp add: Cons.IH map_of_obj_set map_add_upd_left fun_eq_iff map_add_def split: option.splits)
qed

lemma map_of_rev_distinct: "distinct (map fst s) \<Longrightarrow> map_of (rev s) = map_of s"
proof (induction s)
  case Nil
  then show ?case by simp
next
  case (Cons kv s)
  obtain k v where kv: "kv = (k, v)" by (cases kv)
  have "map_of s k = None" using Cons.prems kv by (simp add: map_of_eq_None_iff)
  then have "[k \<mapsto> v] ++ map_of s = (map_of s)(k \<mapsto> v)"
    by (auto simp: fun_eq_iff map_add_def split: option.splits)
  then show ?case using Cons kv by simp
qed

lemma map_of_Object_assign:
  "distinct (map fst s) \<Longrightarrow> map_of (Object_assign t s) = map_of t ++ map_of s"
  by (simp add: map_of_Object_assign_rev map_of_rev_distinct)

lemma map_of_foldl_Object_assign:
  "\<forall>b \<in> set bs. distinct (map fst b) \<Longrightarrow>
   map_of (foldl Object_assign acc bs) = foldl (++) (map_of acc) (map map_of bs)"
  by (induction bs arbitrary: acc) (simp_all add: map_of_Object_assign)

lemma chunks_length_le: "0 < n \<Longrightarrow> b \<in> set (chunks n xs) \<Longrightarrow> length b \<le> n"
proof (induction n xs rule: chunks.induct)
  case (1 n xs)
  show ?case
  proof (cases "xs = []")
    case True
    then show ?thesis using 1(3) by simp
  next
    case False
    then have "b = take n xs \<or> b \<in> set (chunks n (drop n xs))"
      using 1(2,3) by (simp add: chunks_step)
    then show ?thesis using 1(1) [OF _ 1(2)] False 1(2) by auto
  qed
qed

lemma bars_params_token:
  "t = None \<or> truthy_string t \<Longrightarrow>
   bars_params timeframe start end' batch t =
     [(''timeframe'', Str timeframe), (''limit'', Num 10000), (''start'', Str start),
      (''end'', Str end'), (''symbols'', Str (join '','' batch))] @
     (case t of None \<Rightarrow> [] | Some tk \<Rightarrow> [(''page_token'', Str tk)])"
  by (cases t) (auto simp: bars_params_def)

lemma news_params_first:
  "news_params start end' symbols None =
     [(''sort'', Str ''desc''), (''start'', Str start), (''end'', Str end'),
      (''symbols'', Str (join '','' symbols)), (''include_content'', Bool True)]"
  by (simp add: news_params_def)

lemma news_params_token:
  "truthy_string t \<Longrightarrow> news_params start end' symbols t = [(''page_token'', Str (the t))]"
  by (cases t) (auto simp: news_params_def)

text \<open>
  Claim C9. For the empty symbol list \<open>getStockBars\<close> makes no request at all (the
  network and the record of calls come back untouched) and returns a success envelope whose
  text is exactly \<^verbatim>\<open>{"bars":{}}\<close>. This holds for every environment, so also when the
  credentials are not configured: they are tested in the request helper only, and no request
  is made.
\<close>

theorem getStockBars_empty_symbols:
  \<open>getStockBars e [] start end' timeframe w =
     Some (\<lparr>content = [\<lparr>type = ''text'', text' = ''{"bars":{}}''\<rparr>], isError = False\<rparr>, w)\<close>
proof -
  have no_batch: "getBatches ([] :: string list) 2000 = Some []"
    unfolding getBatches_def by (subst getBatches_loop.simps) simp
  have no_round: "bars_batches e timeframe start end' [] [] w = Some (Inr [], w)"
    by simp
  have payload: \<open>JSON_stringify (JObj [(''bars'', JObj [])]) = ''{"bars":{}}''\<close>
    by (simp add: quote_def escape_char_def)
  show ?thesis
    unfolding getStockBars_def
    by (simp only: no_batch no_round payload option.case prod.case sum.case)
qed

text \<open>
  Claim C4, as amended. When either credential is missing or empty, every call of the request
  helper fails with the fixed message, with no call of \<^verbatim>\<open>fetch\<close> and nothing taken from
  the network. A fetcher that reaches the helper then returns (it does not throw) the error
  envelope whose text is its own prefix followed by that message, again with no network
  activity: \<open>getAssets\<close>, \<open>getMarketDays\<close> and \<open>getNews\<close> always, \<open>getStockBars\<close> for a
  symbol list that is not empty. For the empty symbol list \<open>getStockBars\<close> succeeds.
\<close>

theorem missing_credentials_fail_fast:
  assumes "\<not> truthy_string (ALPACA_API_KEY e) \<or> \<not> truthy_string (ALPACA_SECRET_KEY e)"
  shows
    \<open>request e base path meth ps w =
       Some (Inl (Error
         ''Alpaca credentials not configured. Set ALPACA_API_KEY and ALPACA_SECRET_KEY.''), w)
     \<and> getAssets e assetClass wa =
         Some (\<lparr>content = [\<lparr>type = ''text'', text' =
           ''Error fetching assets: Alpaca credentials not configured. Set ALPACA_API_KEY and ALPACA_SECRET_KEY.''\<rparr>],
           isError = True\<rparr>, wa)
     \<and> getMarketDays e start end' wd =
         Some (\<lparr>content = [\<lparr>type = ''text'', text' =
           ''Error fetching market days: Alpaca credentials not configured. Set ALPACA_API_KEY and ALPACA_SECRET_KEY.''\<rparr>],
           isError = True\<rparr>, wd)
     \<and> getNews e start end' symbols wn =
         Some (\<lparr>content = [\<lparr>type = ''text'', text' =
           ''Error fetching news: Alpaca credentials not configured. Set ALPACA_API_KEY and ALPACA_SECRET_KEY.''\<rparr>],
           isError = True\<rparr>, wn)
     \<and> (symbols \<noteq> [] \<longrightarrow>
         getStockBars e symbols start end' timeframe wb =
           Some (\<lparr>content = [\<lparr>type = ''text'', text' =
             ''Error fetching stock bars: Alpaca credentials not configured. Set ALPACA_API_KEY and ALPACA_SECRET_KEY.''\<rparr>],
             isError = True\<rparr>, wb))
     \<and> getStockBars e [] start end' timeframe wb =
         Some (\<lparr>content = [\<lparr>type = ''text'', text' = ''{"bars":{}}''\<rparr>], isError = False\<rparr>, wb)\<close>
proof -
  note c = assms
  have 1: "request e base path meth ps w =
       Some (Inl (Error
         ''Alpaca credentials not configured. Set ALPACA_API_KEY and ALPACA_SECRET_KEY.''), w)"
    using c by (rule request_missing_credentials)
  have 2: "getAssets e assetClass wa =
         Some (\<lparr>content = [\<lparr>type = ''text'', text' =
           ''Error fetching assets: Alpaca credentials not configured. Set ALPACA_API_KEY and ALPACA_SECRET_KEY.''\<rparr>],
           isError = True\<rparr>, wa)"
    using getAssets_missing_credentials [OF c, of assetClass wa] by simp
  have 3: "getMarketDays e start end' wd =
         Some (\<lparr>content = [\<lparr>type = ''text'', text' =
           ''Error fetching market days: Alpaca credentials not configured. Set ALPACA_API_KEY and ALPACA_SECRET_KEY.''\<rparr>],
           isError = True\<rparr>, wd)"
    using getMarketDays_missing_credentials [OF c, of start end' wd] by simp
  have 4: "getNews e start end' symbols wn =
         Some (\<lparr>content = [\<lparr>type = ''text'', text' =
           ''Error fetching news: Alpaca credentials not configured. Set ALPACA_API_KEY and ALPACA_SECRET_KEY.''\<rparr>],
           isError = True\<rparr>, wn)"
    using getNews_missing_credentials [OF c, of start end' symbols wn] by simp
  have 5: "symbols \<noteq> [] \<longrightarrow>
         getStockBars e symbols start end' timeframe wb =
           Some (\<lparr>content = [\<lparr>type = ''text'', text' =
             ''Error fetching stock bars: Alpaca credentials not configured. Set ALPACA_API_KEY and ALPACA_SECRET_KEY.''\<rparr>],
             isError = True\<rparr>, wb)"
    using getStockBars_missing_credentials [OF c, of symbols start end' timeframe wb] by simp
  note 6 = getStockBars_empty [of e start end' timeframe wb]
  show ?thesis using 1 2 3 4 5 6 by blast
qed

theorem missing_credentials_fail_fast_witness:
  \<open>\<not> truthy_string (ALPACA_SECRET_KEY \<lparr>ALPACA_API_KEY = Some ''key'', ALPACA_SECRET_KEY = Some [],
        ALPACA_ENDPOINT = Some ''https://api/'', ALPACA_BROKER_ENDPOINT = Some ''https://broker/''\<rparr>)
   \<and> getNews \<lparr>ALPACA_API_KEY = Some ''key'', ALPACA_SECRET_KEY = Some [],
        ALPACA_ENDPOINT = Some ''https://api/'', ALPACA_BROKER_ENDPOINT = Some ''https://broker/''\<rparr>
        ''2021-01-01'' ''2021-01-02'' [''A'']
        \<lparr>pending = [Ok (Inr \<lparr>next_page_token = None, news = [JNum 1]\<rparr>)], calls = []\<rparr> =
       Some (\<lparr>content = [\<lparr>type = ''text'', text' =
         ''Error fetching news: Alpaca credentials not configured. Set ALPACA_API_KEY and ALPACA_SECRET_KEY.''\<rparr>],
         isError = True\<rparr>,
         \<lparr>pending = [Ok (Inr \<lparr>next_page_token = None, news = [JNum 1]\<rparr>)], calls = []\<rparr>)
   \<and> getStockBars \<lparr>ALPACA_API_KEY = Some ''key'', ALPACA_SECRET_KEY = Some [],
        ALPACA_ENDPOINT = Some ''https://api/'', ALPACA_BROKER_ENDPOINT = Some ''https://broker/''\<rparr>
        [''A''] ''2021-01-01'' ''2021-01-02'' ''1Day'' \<lparr>pending = [], calls = []\<rparr> =
       Some (\<lparr>content = [\<lparr>type = ''text'', text' =
         ''Error fetching stock bars: Alpaca credentials not configured. Set ALPACA_API_KEY and ALPACA_SECRET_KEY.''\<rparr>],
         isError = True\<rparr>, \<lparr>pending = [], calls = []\<rparr>)\<close>
proof -
  let ?e = "\<lparr>ALPACA_API_KEY = Some ''key'', ALPACA_SECRET_KEY = Some [],
        ALPACA_ENDPOINT = Some ''https://api/'', ALPACA_BROKER_ENDPOINT = Some ''https://broker/''\<rparr>"
  have h: "\<not> truthy_string (ALPACA_API_KEY ?e) \<or> \<not> truthy_string (ALPACA_SECRET_KEY ?e)"
    by simp
  have hs: "\<not> truthy_string (ALPACA_SECRET_KEY ?e)" by simp
  have ne: "[''A''] \<noteq> []" by simp
  show ?thesis
    using hs ne
      missing_credentials_fail_fast [OF h, where symbols = "[''A'']" and start = "''2021-01-01''"
        and end' = "''2021-01-02''" and timeframe = "''1Day''"
        and wn = "\<lparr>pending = [Ok (Inr \<lparr>next_page_token = None, news = [JNum 1]\<rparr>)], calls = []\<rparr>"
        and wb = "\<lparr>pending = [], calls = []\<rparr>"]
    by blast
qed

text \<open>
  As stated, claim C4 also promises the failure for every invocation of every fetcher. That
  does not hold: with both credentials cleared, \<open>getStockBars\<close> on the empty symbol list
  returns the success envelope, and its text does not contain the message.
\<close>

theorem missing_credentials_counterexample:
  \<open>getStockBars \<lparr>ALPACA_API_KEY = None, ALPACA_SECRET_KEY = None,
        ALPACA_ENDPOINT = Some ''https://api/'', ALPACA_BROKER_ENDPOINT = Some ''https://broker/''\<rparr>
      [] ''2021-01-01'' ''2021-01-02'' ''1Day'' \<lparr>pending = [], calls = []\<rparr> =
     Some (\<lparr>content = [\<lparr>type = ''text'', text' = ''{"bars":{}}''\<rparr>], isError = False\<rparr>,
           \<lparr>pending = [], calls = []\<rparr>)
   \<and> \<not> sublist ''Alpaca credentials not configured'' ''{"bars":{}}''\<close>
proof -
  have "\<not> sublist ''Alpaca credentials not configured'' xs" if "length xs < 33" for xs :: string
    using that sublist_length_le [of "''Alpaca credentials not configured''" xs] by auto
  then show ?thesis by (simp add: getStockBars_empty)
qed

text \<open>
  Claim C5. With the credentials configured, a response whose status is not a success makes
  the request helper decode the body as JSON and throw an error whose message is exactly
  the status, a space, the status text, \<^verbatim>\<open> - \<close> and the JSON encoding of the body; when
  the body does not decode, the error of the decoder is thrown instead, unchanged.
\<close>

theorem request_non_success_status:
  assumes "truthy_string (ALPACA_API_KEY e)" and "truthy_string (ALPACA_SECRET_KEY e)"
    and "pending w = NotOk status statusText body # rs"
  shows "(\<forall>err. body = Inr err \<longrightarrow>
            map_option fst (request e base path meth ps w) =
              Some (Inl (Error (show_nat status @ '' '' @ statusText @ '' - '' @ JSON_stringify err))))
       \<and> (\<forall>m. body = Inl m \<longrightarrow>
            map_option fst (request e base path meth ps w) = Some (Inl (Error m)))"
  using request_answered [OF assms, of base path meth ps] by (auto split: sum.splits)

theorem request_non_success_status_witness:
  \<open>map_option fst
     (request \<lparr>ALPACA_API_KEY = Some ''key'', ALPACA_SECRET_KEY = Some ''secret'',
                ALPACA_ENDPOINT = Some ''https://api/'', ALPACA_BROKER_ENDPOINT = None\<rparr>
        None ''/e'' None None
        \<lparr>pending = [NotOk 404 ''Not Found'' (Inr (JObj [(''error'', JStr ''fail'')]))
                      :: json fetched],
         calls = []\<rparr>) =
     Some (Inl (Error ''404 Not Found - {"error":"fail"}''))
   \<and> map_option fst
     (request \<lparr>ALPACA_API_KEY = Some ''key'', ALPACA_SECRET_KEY = Some ''secret'',
                ALPACA_ENDPOINT = Some ''https://api/'', ALPACA_BROKER_ENDPOINT = None\<rparr>
        None ''/e'' None None
        \<lparr>pending = [NotOk 502 ''Bad Gateway'' (Inl ''Unexpected token < in JSON at position 0'')
                      :: json fetched],
         calls = []\<rparr>) =
     Some (Inl (Error ''Unexpected token < in JSON at position 0''))\<close>
proof -
  let ?e = "\<lparr>ALPACA_API_KEY = Some ''key'', ALPACA_SECRET_KEY = Some ''secret'',
                ALPACA_ENDPOINT = Some ''https://api/'', ALPACA_BROKER_ENDPOINT = None\<rparr>"
  let ?w1 = "\<lparr>pending = [NotOk 404 ''Not Found'' (Inr (JObj [(''error'', JStr ''fail'')]))
                      :: json fetched], calls = []\<rparr>"
  let ?w2 = "\<lparr>pending = [NotOk 502 ''Bad Gateway'' (Inl ''Unexpected token < in JSON at position 0'')
                      :: json fetched], calls = []\<rparr>"
  have k: "truthy_string (ALPACA_API_KEY ?e)" and s: "truthy_string (ALPACA_SECRET_KEY ?e)"
    by simp_all
  have p1: "pending ?w1 = NotOk 404 ''Not Found'' (Inr (JObj [(''error'', JStr ''fail'')])) # []"
    and p2: "pending ?w2 = NotOk 502 ''Bad Gateway'' (Inl ''Unexpected token < in JSON at position 0'') # []"
    by simp_all
  have t: "show_nat 404 = ''404''" by (simp add: show_nat.simps)
  show ?thesis
    using request_non_success_status [OF k s p1, of None "''/e''" None None]
      request_non_success_status [OF k s p2, of None "''/e''" None None] t
    by (simp add: quote_def escape_char_def)
qed

text \<open>
  Claim C8. With the credentials configured and a network that answers, the request helper
  calls \<^verbatim>\<open>fetch\<close> once, with the URL that is the base, the path and, when the query
  string is not empty, a question mark and the query string, joined as they are (no slash is
  added or removed between base and path), and with exactly the two credential headers. The
  query string is empty exactly when there is no parameter.
\<close>

theorem request_builds_url:
  assumes "ALPACA_API_KEY e = Some k" and "k \<noteq> []"
    and "ALPACA_SECRET_KEY e = Some s" and "s \<noteq> []"
    and "pending w = r # rs"
  shows "request e (Some base) path meth (Some ps) w =
           Some (response_result r,
                 \<lparr>pending = rs,
                  calls = calls w @
                    [\<lparr>url = base @ path @
                              (if URLSearchParams_toString ps \<noteq> []
                               then ''?'' @ URLSearchParams_toString ps else []),
                      method' = (case meth of None \<Rightarrow> ''GET'' | Some m \<Rightarrow> m),
                      headers = [(''APCA-API-KEY-ID'', k), (''APCA-API-SECRET-KEY'', s)]\<rparr>]\<rparr>)
         \<and> (URLSearchParams_toString ps = [] \<longleftrightarrow> ps = [])"
proof -
  have c: "truthy_string (ALPACA_API_KEY e)" "truthy_string (ALPACA_SECRET_KEY e)"
    using assms by simp_all
  have "URLSearchParams_toString ps = [] \<longleftrightarrow> ps = []"
    using URLSearchParams_toString_nonempty [of ps] by (auto simp: URLSearchParams_toString_def)
  then show ?thesis
    using request_answered [OF c assms(5), of "Some base" path meth "Some ps"] assms(1,3)
    by (simp add: fetch_call_def Let_def)
qed

theorem request_builds_url_witness:
  "request \<lparr>ALPACA_API_KEY = Some ''key'', ALPACA_SECRET_KEY = Some ''secret'',
             ALPACA_ENDPOINT = None, ALPACA_BROKER_ENDPOINT = None\<rparr>
     (Some ''https://api/'') ''/endpoint'' None (Some [])
     \<lparr>pending = [Ok (Inr (JNum 1))], calls = []\<rparr> =
   Some (Inr (JNum 1),
         \<lparr>pending = [],
          calls = [\<lparr>url = ''https://api//endpoint'', method' = ''GET'',
                    headers = [(''APCA-API-KEY-ID'', ''key''),
                               (''APCA-API-SECRET-KEY'', ''secret'')]\<rparr>]\<rparr>)
   \<and> request \<lparr>ALPACA_API_KEY = Some ''key'', ALPACA_SECRET_KEY = Some ''secret'',
             ALPACA_ENDPOINT = None, ALPACA_BROKER_ENDPOINT = None\<rparr>
     (Some ''https://api'') ''v2/calendar'' None
     (Some [(''start'', Str ''2021-01-01''), (''note'', Str ''a b,c'')])
     \<lparr>pending = [Ok (Inr (JNum 1))], calls = []\<rparr> =
   Some (Inr (JNum 1),
         \<lparr>pending = [],
          calls = [\<lparr>url = ''https://apiv2/calendar?start=2021-01-01&note=a+b%2Cc'',
                    method' = ''GET'',
                    headers = [(''APCA-API-KEY-ID'', ''key''),
                               (''APCA-API-SECRET-KEY'', ''secret'')]\<rparr>]\<rparr>)"
proof -
  let ?e = "\<lparr>ALPACA_API_KEY = Some ''key'', ALPACA_SECRET_KEY = Some ''secret'',
             ALPACA_ENDPOINT = None, ALPACA_BROKER_ENDPOINT = None\<rparr>"
  let ?w = "\<lparr>pending = [Ok (Inr (JNum 1))], calls = []\<rparr>"
  have k: "ALPACA_API_KEY ?e = Some ''key''" "''key'' \<noteq> []"
    and s: "ALPACA_SECRET_KEY ?e = Some ''secret''" "''secret'' \<noteq> []"
    and p: "pending ?w = Ok (Inr (JNum 1)) # []"
    by simp_all
  have q: "URLSearchParams_toString [(''start'', Str ''2021-01-01''), (''note'', Str ''a b,c'')] =
             ''start=2021-01-01&note=a+b%2Cc''"
    by (simp add: URLSearchParams_toString_def urlencode_def urlencode_char_def hex_upper_def)
  have q0: "URLSearchParams_toString [] = []"
    by (simp add: URLSearchParams_toString_def)
  show ?thesis
    using request_builds_url [OF k s p, of "''https://api/''" "''/endpoint''" None "[]"]
      request_builds_url [OF k s p, of "''https://api''" "''v2/calendar''" None
        "[(''start'', Str ''2021-01-01''), (''note'', Str ''a b,c'')]"]
    by (simp add: q q0)
qed

text \<open>
  Claim C7, as amended. With the credentials and the broker base configured, \<open>getAssets\<close>
  makes a single request, to the broker base with the assets path and exactly the two query
  parameters \<^verbatim>\<open>status=active\<close> and \<^verbatim>\<open>asset_class\<close> (the class given, \<^verbatim>\<open>us_equity\<close> when
  none is given). When the answer is an array of asset records, the payload is the JSON
  encoding of the records whose \<^verbatim>\<open>tradable\<close> attribute is truthy, in their order: the
  attribute is there and is neither \<^verbatim>\<open>null\<close>, \<^verbatim>\<open>false\<close>, \<^verbatim>\<open>0\<close> nor the empty string.
  For attributes that are booleans (or missing) these are the records whose attribute is
  \<^verbatim>\<open>true\<close>.
\<close>

theorem getAssets_tradable_truthy:
  assumes "ALPACA_API_KEY e = Some k" and "k \<noteq> []"
    and "ALPACA_SECRET_KEY e = Some s" and "s \<noteq> []"
    and "ALPACA_BROKER_ENDPOINT e = Some broker"
    and "pending w = Ok (Inr data) # rs"
  shows "getAssets e assetClass w =
           Some (\<lparr>content = [\<lparr>type = ''text'',
                    text' = JSON_stringify
                      (JArr (map JObj (filter (\<lambda>a. truthy (map_of a ''tradable'')) data)))\<rparr>],
                   isError = False\<rparr>,
                 \<lparr>pending = rs,
                  calls = calls w @
                    [\<lparr>url = broker @ ''/v1/assets'' @ ''?status=active&asset_class='' @
                              asset_class_name
                                (case assetClass of None \<Rightarrow> us_equity | Some c \<Rightarrow> c),
                      method' = ''GET'',
                      headers = [(''APCA-API-KEY-ID'', k), (''APCA-API-SECRET-KEY'', s)]\<rparr>]\<rparr>)
         \<and> (\<forall>v. truthy v \<longleftrightarrow>
                (\<exists>x. v = Some x \<and> x \<noteq> JNull \<and> x \<noteq> JBool False \<and> x \<noteq> JNum 0 \<and> x \<noteq> JStr []))
         \<and> ((\<forall>a \<in> set data. \<forall>v. map_of a ''tradable'' = Some v \<longrightarrow> (\<exists>b. v = JBool b)) \<longrightarrow>
              filter (\<lambda>a. truthy (map_of a ''tradable'')) data =
              filter (\<lambda>a. map_of a ''tradable'' = Some (JBool True)) data)"
proof -
  have c: "truthy_string (ALPACA_API_KEY e)" "truthy_string (ALPACA_SECRET_KEY e)"
    using assms by simp_all
  let ?c = "case assetClass of None \<Rightarrow> us_equity | Some c \<Rightarrow> c"
  have q: "URLSearchParams_toString
             [(''status'', Str ''active''), (''asset_class'', Str (asset_class_name ?c))] =
           ''status=active&asset_class='' @ asset_class_name ?c"
    by (cases ?c) (simp_all add: URLSearchParams_toString_def urlencode_def urlencode_char_def)
  have 1: "getAssets e assetClass w =
           Some (\<lparr>content = [\<lparr>type = ''text'',
                    text' = JSON_stringify
                      (JArr (map JObj (filter (\<lambda>a. truthy (map_of a ''tradable'')) data)))\<rparr>],
                   isError = False\<rparr>,
                 \<lparr>pending = rs,
                  calls = calls w @
                    [\<lparr>url = broker @ ''/v1/assets'' @ ''?status=active&asset_class='' @
                              asset_class_name ?c,
                      method' = ''GET'',
                      headers = [(''APCA-API-KEY-ID'', k), (''APCA-API-SECRET-KEY'', s)]\<rparr>]\<rparr>)"
    unfolding getAssets_def Let_def
    using assms(1,3,5) q
    by (simp add: request_answered [OF c assms(6)] fetch_call_query del: JSON_stringify.simps)
  have 2: "truthy v \<longleftrightarrow>
             (\<exists>x. v = Some x \<and> x \<noteq> JNull \<and> x \<noteq> JBool False \<and> x \<noteq> JNum 0 \<and> x \<noteq> JStr [])"
    for v
  proof (cases v)
    case None
    then show ?thesis by simp
  next
    case (Some x)
    then show ?thesis by (cases x) simp_all
  qed
  have 3: "filter (\<lambda>a. truthy (map_of a ''tradable'')) data =
           filter (\<lambda>a. map_of a ''tradable'' = Some (JBool True)) data"
    if b: "\<forall>a \<in> set data. \<forall>v. map_of a ''tradable'' = Some v \<longrightarrow> (\<exists>b. v = JBool b)"
  proof (rule filter_cong [OF refl])
    fix a assume "a \<in> set data"
    with b have "\<forall>v. map_of a ''tradable'' = Some v \<longrightarrow> (\<exists>b. v = JBool b)" by blast
    then show "truthy (map_of a ''tradable'') = (map_of a ''tradable'' = Some (JBool True))"
      by (cases "map_of a ''tradable''") auto
  qed
  show ?thesis using 1 2 3 by blast
qed

theorem getAssets_tradable_truthy_witness:
  \<open>getAssets \<lparr>ALPACA_API_KEY = Some ''key'', ALPACA_SECRET_KEY = Some ''secret'',
               ALPACA_ENDPOINT = Some ''https://api/'', ALPACA_BROKER_ENDPOINT = Some ''https://broker/''\<rparr>
     (Some us_equity)
     \<lparr>pending = [Ok (Inr [[(''tradable'', JBool True), (''symbol'', JStr ''A'')],
                            [(''tradable'', JBool False), (''symbol'', JStr ''B'')],
                            [(''tradable'', JNum 1), (''symbol'', JStr ''C'')],
                            [(''tradable'', JStr ''false''), (''symbol'', JStr ''D'')],
                            [(''symbol'', JStr ''E'')],
                            [(''tradable'', JNull), (''symbol'', JStr ''F'')],
                            [(''tradable'', JNum 0), (''symbol'', JStr ''G'')],
                            [(''tradable'', JStr []), (''symbol'', JStr ''H'')]])],
      calls = []\<rparr> =
   Some (\<lparr>content = [\<lparr>type = ''text'',
            text' = ''[{"tradable":true,"symbol":"A"},{"tradable":1,"symbol":"C"},{"tradable":"false","symbol":"D"}]''\<rparr>],
           isError = False\<rparr>,
         \<lparr>pending = [],
          calls = [\<lparr>url = ''https://broker//v1/assets?status=active&asset_class=us_equity'',
                    method' = ''GET'',
                    headers = [(''APCA-API-KEY-ID'', ''key''),
                               (''APCA-API-SECRET-KEY'', ''secret'')]\<rparr>]\<rparr>)\<close>
proof -
  let ?e = "\<lparr>ALPACA_API_KEY = Some ''key'', ALPACA_SECRET_KEY = Some ''secret'',
               ALPACA_ENDPOINT = Some ''https://api/'', ALPACA_BROKER_ENDPOINT = Some ''https://broker/''\<rparr>"
  let ?d = "[[(''tradable'', JBool True), (''symbol'', JStr ''A'')],
             [(''tradable'', JBool False), (''symbol'', JStr ''B'')],
             [(''tradable'', JNum 1), (''symbol'', JStr ''C'')],
             [(''tradable'', JStr ''false''), (''symbol'', JStr ''D'')],
             [(''symbol'', JStr ''E'')],
             [(''tradable'', JNull), (''symbol'', JStr ''F'')],
             [(''tradable'', JNum 0), (''symbol'', JStr ''G'')],
             [(''tradable'', JStr []), (''symbol'', JStr ''H'')]]"
  let ?w = "\<lparr>pending = [Ok (Inr ?d)], calls = []\<rparr>"
  have k: "ALPACA_API_KEY ?e = Some ''key''" "''key'' \<noteq> []"
    and s: "ALPACA_SECRET_KEY ?e = Some ''secret''" "''secret'' \<noteq> []"
    and b: "ALPACA_BROKER_ENDPOINT ?e = Some ''https://broker/''"
    and p: "pending ?w = Ok (Inr ?d) # []"
    by simp_all
  note t = conjunct1 [OF getAssets_tradable_truthy [OF k s b p, of "Some us_equity"]]
  show ?thesis
    using t by (simp add: quote_def escape_char_def show_int_def show_nat.simps)
qed

text \<open>
  As stated, claim C7 keeps only the records whose \<^verbatim>\<open>tradable\<close> attribute is \<^verbatim>\<open>true\<close>.
  That does not hold: \<^verbatim>\<open>data.filter(a => a.tradable)\<close> tests truthiness, so a record whose
  attribute is the number \<^verbatim>\<open>1\<close>, which is not \<^verbatim>\<open>true\<close>, is in the payload.
\<close>

theorem getAssets_tradable_counterexample:
  \<open>getAssets \<lparr>ALPACA_API_KEY = Some ''key'', ALPACA_SECRET_KEY = Some ''secret'',
               ALPACA_ENDPOINT = Some ''https://api/'', ALPACA_BROKER_ENDPOINT = Some ''https://broker/''\<rparr>
     (Some us_equity)
     \<lparr>pending = [Ok (Inr [[(''tradable'', JNum 1), (''symbol'', JStr ''A'')]])], calls = []\<rparr> =
   Some (\<lparr>content = [\<lparr>type = ''text'', text' = ''[{"tradable":1,"symbol":"A"}]''\<rparr>],
           isError = False\<rparr>,
         \<lparr>pending = [],
          calls = [\<lparr>url = ''https://broker//v1/assets?status=active&asset_class=us_equity'',
                    method' = ''GET'',
                    headers = [(''APCA-API-KEY-ID'', ''key''),
                               (''APCA-API-SECRET-KEY'', ''secret'')]\<rparr>]\<rparr>)
   \<and> map_of [(''tradable'', JNum 1), (''symbol'', JStr ''A'')] ''tradable'' = Some (JNum 1)
   \<and> JNum 1 \<noteq> JBool True
   \<and> JSON_stringify (JArr []) = ''[]''
   \<and> ''[{"tradable":1,"symbol":"A"}]'' \<noteq> ''[]''\<close>
proof -
  let ?e = "\<lparr>ALPACA_API_KEY = Some ''key'', ALPACA_SECRET_KEY = Some ''secret'',
               ALPACA_ENDPOINT = Some ''https://api/'', ALPACA_BROKER_ENDPOINT = Some ''https://broker/''\<rparr>"
  let ?w = "\<lparr>pending = [Ok (Inr [[(''tradable'', JNum 1), (''symbol'', JStr ''A'')]])],
             calls = []\<rparr>"
  have c: "truthy_string (ALPACA_API_KEY ?e)" "truthy_string (ALPACA_SECRET_KEY ?e)"
    and p: "pending ?w = Ok (Inr [[(''tradable'', JNum 1), (''symbol'', JStr ''A'')]]) # []"
    by simp_all
  have q: "URLSearchParams_toString
             [(''status'', Str ''active''), (''asset_class'', Str ''us_equity'')] =
           ''status=active&asset_class=us_equity''"
    by (simp add: URLSearchParams_toString_def urlencode_def urlencode_char_def)
  show ?thesis
    unfolding getAssets_def Let_def
    by (simp add: request_answered [OF c p] fetch_call_def Let_def q
        quote_def escape_char_def show_int_def show_nat.simps)
qed

text \<open>
  Claim C2. With the credentials configured, the first request of \<open>getNews\<close> carries exactly
  the parameters \<^verbatim>\<open>sort=desc\<close>, \<^verbatim>\<open>start\<close>, \<^verbatim>\<open>end\<close>, \<^verbatim>\<open>symbols\<close> (joined by commas) and
  \<^verbatim>\<open>include_content=true\<close>; every later request carries \<^verbatim>\<open>page_token\<close>, the token of the
  page before, and nothing else. The loop ends with the first page that carries no token, and
  the payload is the JSON encoding of the articles of all pages, in the order of arrival.
\<close>

theorem getNews_pagination:
  assumes "truthy_string (ALPACA_API_KEY e)" and "truthy_string (ALPACA_SECRET_KEY e)"
    and "ps \<noteq> []"
    and "\<forall>p \<in> set (butlast ps). truthy_string (next_page_token p)"
    and "\<not> truthy_string (next_page_token (last ps))"
    and "pending w = map (\<lambda>p. Ok (Inr p)) ps @ rest"
  shows "getNews e start end' symbols w =
           Some (\<lparr>content = [\<lparr>type = ''text'',
                    text' = JSON_stringify (JArr (concat (map news ps)))\<rparr>],
                   isError = False\<rparr>,
                 \<lparr>pending = rest,
                  calls = calls w @
                    fetch_call e (ALPACA_ENDPOINT e) ''/v1beta1/news'' ''GET''
                      [(''sort'', Str ''desc''), (''start'', Str start), (''end'', Str end'),
                       (''symbols'', Str (join '','' symbols)), (''include_content'', Bool True)]
                    # map (\<lambda>p. fetch_call e (ALPACA_ENDPOINT e) ''/v1beta1/news'' ''GET''
                                 [(''page_token'', Str (the (next_page_token p)))])
                          (butlast ps)\<rparr>)"
proof -
  have later: "map (\<lambda>t. fetch_call e (ALPACA_ENDPOINT e) ''/v1beta1/news'' ''GET''
                       (news_params start end' symbols t)) (map next_page_token (butlast ps)) =
               map (\<lambda>p. fetch_call e (ALPACA_ENDPOINT e) ''/v1beta1/news'' ''GET''
                       [(''page_token'', Str (the (next_page_token p)))]) (butlast ps)"
    using assms(4) by (simp add: news_params_token)
  show ?thesis
    unfolding getNews_def
    using news_pages_run [OF assms, of start end' symbols None "[]"] later
    by (simp add: news_params_first del: JSON_stringify.simps)
qed

theorem getNews_pagination_witness:
  \<open>getNews \<lparr>ALPACA_API_KEY = Some ''key'', ALPACA_SECRET_KEY = Some ''secret'',
             ALPACA_ENDPOINT = Some ''https://api/'', ALPACA_BROKER_ENDPOINT = None\<rparr>
     ''2021-01-01'' ''2021-01-02'' [''A'', ''B'']
     \<lparr>pending = [Ok (Inr \<lparr>next_page_token = Some ''t1'', news = [JNum 1, JNum 2]\<rparr>),
                  Ok (Inr \<lparr>next_page_token = None, news = [JNum 3]\<rparr>),
                  Rejected ''never asked for''],
      calls = []\<rparr> =
   Some (\<lparr>content = [\<lparr>type = ''text'', text' = ''[1,2,3]''\<rparr>], isError = False\<rparr>,
         \<lparr>pending = [Rejected ''never asked for''],
          calls =
            [\<lparr>url = ''https://api//v1beta1/news?sort=desc&start=2021-01-01&end=2021-01-02&symbols=A%2CB&include_content=true'',
              method' = ''GET'',
              headers = [(''APCA-API-KEY-ID'', ''key''), (''APCA-API-SECRET-KEY'', ''secret'')]\<rparr>,
             \<lparr>url = ''https://api//v1beta1/news?page_token=t1'',
              method' = ''GET'',
              headers = [(''APCA-API-KEY-ID'', ''key''), (''APCA-API-SECRET-KEY'', ''secret'')]\<rparr>]\<rparr>)\<close>
proof -
  let ?e = "\<lparr>ALPACA_API_KEY = Some ''key'', ALPACA_SECRET_KEY = Some ''secret'',
             ALPACA_ENDPOINT = Some ''https://api/'', ALPACA_BROKER_ENDPOINT = None\<rparr>"
  let ?ps = "[\<lparr>next_page_token = Some ''t1'', news = [JNum 1, JNum 2]\<rparr>,
              \<lparr>next_page_token = None, news = [JNum 3]\<rparr>]"
  let ?w = "\<lparr>pending = [Ok (Inr \<lparr>next_page_token = Some ''t1'', news = [JNum 1, JNum 2]\<rparr>),
                  Ok (Inr \<lparr>next_page_token = None, news = [JNum 3]\<rparr>),
                  Rejected ''never asked for''],
      calls = []\<rparr>"
  have k: "truthy_string (ALPACA_API_KEY ?e)" and s: "truthy_string (ALPACA_SECRET_KEY ?e)"
    and ne: "?ps \<noteq> []"
    and b: "\<forall>p \<in> set (butlast ?ps). truthy_string (next_page_token p)"
    and l: "\<not> truthy_string (next_page_token (last ?ps))"
    and p: "pending ?w = map (\<lambda>p. Ok (Inr p)) ?ps @ [Rejected ''never asked for'']"
    by simp_all
  show ?thesis
    using getNews_pagination [OF k s ne b l p, of "''2021-01-01''" "''2021-01-02''" "[''A'', ''B'']"]
    by (simp add: fetch_call_def Let_def URLSearchParams_toString_def urlencode_def
        urlencode_char_def hex_upper_def show_int_def show_nat.simps)
qed

text \<open>
  Claim C1. With the credentials configured, \<open>getStockBars\<close> cuts the symbols into
  consecutive batches of at most 2000 (their concatenation is the symbol list) and handles
  the batches in input order. For each batch it runs one pagination loop: the first request
  carries the parameters \<^verbatim>\<open>timeframe\<close>, \<^verbatim>\<open>limit=10000\<close>, \<^verbatim>\<open>start\<close>, \<^verbatim>\<open>end\<close> and
  \<^verbatim>\<open>symbols\<close> (the batch joined by commas), every later request of the loop carries the
  same parameters followed by \<^verbatim>\<open>page_token\<close>, the token of the page before, and the loop
  ends with the first page that carries no token. So whenever the network answers each batch
  with pages of which only the last carries no token, the fetcher makes exactly these
  requests, takes exactly these pages from the network, and returns the success envelope
  whose text is the JSON encoding of \<^verbatim>\<open>{ bars: merged }\<close>, where \<open>merged\<close> is the result of
  assigning the \<^verbatim>\<open>bars\<close> of every page, in the order of arrival, to one object that
  starts empty. In that object a key of a later page overrides the same key of an earlier
  page.
\<close>

theorem getStockBars_batches_and_pages:
  assumes "truthy_string (ALPACA_API_KEY e)" and "truthy_string (ALPACA_SECRET_KEY e)"
  shows "\<exists>batches.
           getBatches symbols 2000 = Some batches
         \<and> concat batches = symbols
         \<and> (\<forall>b \<in> set batches. b \<noteq> [] \<and> length b \<le> 2000)
         \<and> (\<forall>pss rest.
               length pss = length batches
             \<and> (\<forall>ps \<in> set pss. ps \<noteq> []
                   \<and> (\<forall>p \<in> set (butlast ps). truthy_string (next_page_token p))
                   \<and> \<not> truthy_string (next_page_token (last ps)))
             \<and> pending w = map (\<lambda>p. Ok (Inr p)) (concat pss) @ rest
             \<longrightarrow>
               getStockBars e symbols start end' timeframe w =
                 Some (\<lparr>content = [\<lparr>type = ''text'',
                          text' = JSON_stringify (JObj [(''bars'',
                            JObj (foldl Object_assign [] (map bars (concat pss))))])\<rparr>],
                         isError = False\<rparr>,
                       \<lparr>pending = rest,
                        calls = calls w @
                          concat (map2 (\<lambda>batch ps.
                            map (\<lambda>t. fetch_call e (ALPACA_ENDPOINT e) ''/v2/stocks/bars'' ''GET''
                                   ([(''timeframe'', Str timeframe), (''limit'', Num 10000),
                                     (''start'', Str start), (''end'', Str end'),
                                     (''symbols'', Str (join '','' batch))] @
                                    (case t of None \<Rightarrow> []
                                     | Some tk \<Rightarrow> [(''page_token'', Str tk)])))
                                (None # map next_page_token (butlast ps)))
                            batches pss)\<rparr>))
         \<and> (\<forall>pages :: bars_page list.
               (\<forall>p \<in> set pages. distinct (map fst (bars p))) \<longrightarrow>
               map_of (foldl Object_assign [] (map bars pages)) =
                 foldl (++) Map.empty (map (\<lambda>p. map_of (bars p)) pages))"
proof -
  let ?batches = "chunks 2000 symbols"
  have 1: "getBatches symbols 2000 = Some ?batches"
    using getBatches_chunks [of 2000 symbols] by simp
  have 2: "concat ?batches = symbols"
    by (simp add: concat_chunks)
  have 3: "\<forall>b \<in> set ?batches. b \<noteq> [] \<and> length b \<le> 2000"
    using chunks_no_empty [of 2000 symbols] chunks_length_le [of 2000 _ symbols] by auto
  have 4: "getStockBars e symbols start end' timeframe w =
             Some (\<lparr>content = [\<lparr>type = ''text'',
                      text' = JSON_stringify (JObj [(''bars'',
                        JObj (foldl Object_assign [] (map bars (concat pss))))])\<rparr>],
                     isError = False\<rparr>,
                   \<lparr>pending = rest,
                    calls = calls w @
                      concat (map2 (\<lambda>batch ps.
                        map (\<lambda>t. fetch_call e (ALPACA_ENDPOINT e) ''/v2/stocks/bars'' ''GET''
                               ([(''timeframe'', Str timeframe), (''limit'', Num 10000),
                                 (''start'', Str start), (''end'', Str end'),
                                 (''symbols'', Str (join '','' batch))] @
                                (case t of None \<Rightarrow> []
                                 | Some tk \<Rightarrow> [(''page_token'', Str tk)])))
                            (None # map next_page_token (butlast ps)))
                        ?batches pss)\<rparr>)"
    if len: "length pss = length ?batches"
      and runs: "\<forall>ps \<in> set pss. ps \<noteq> []
                   \<and> (\<forall>p \<in> set (butlast ps). truthy_string (next_page_token p))
                   \<and> \<not> truthy_string (next_page_token (last ps))"
      and pw: "pending w = map (\<lambda>p. Ok (Inr p)) (concat pss) @ rest"
    for pss rest
  proof -
    have tok: "map (\<lambda>t. fetch_call e (ALPACA_ENDPOINT e) ''/v2/stocks/bars'' ''GET''
                   (bars_params timeframe start end' batch t))
                 (None # map next_page_token (butlast ps)) =
               map (\<lambda>t. fetch_call e (ALPACA_ENDPOINT e) ''/v2/stocks/bars'' ''GET''
                   ([(''timeframe'', Str timeframe), (''limit'', Num 10000),
                     (''start'', Str start), (''end'', Str end'),
                     (''symbols'', Str (join '','' batch))] @
                    (case t of None \<Rightarrow> [] | Some tk \<Rightarrow> [(''page_token'', Str tk)])))
                 (None # map next_page_token (butlast ps))"
      if "ps \<in> set pss" for ps batch
    proof (rule map_cong [OF refl])
      fix t assume "t \<in> set (None # map next_page_token (butlast ps))"
      then have "t = None \<or> truthy_string t" using runs that by auto
      then show "fetch_call e (ALPACA_ENDPOINT e) ''/v2/stocks/bars'' ''GET''
                   (bars_params timeframe start end' batch t) =
                 fetch_call e (ALPACA_ENDPOINT e) ''/v2/stocks/bars'' ''GET''
                   ([(''timeframe'', Str timeframe), (''limit'', Num 10000),
                     (''start'', Str start), (''end'', Str end'),
                     (''symbols'', Str (join '','' batch))] @
                    (case t of None \<Rightarrow> [] | Some tk \<Rightarrow> [(''page_token'', Str tk)]))"
        by (simp only: bars_params_token)
    qed
    have calls_eq:
      "map2 (\<lambda>batch ps.
          map (\<lambda>t. fetch_call e (ALPACA_ENDPOINT e) ''/v2/stocks/bars'' ''GET''
                 (bars_params timeframe start end' batch t))
              (None # map next_page_token (butlast ps))) ?batches pss =
       map2 (\<lambda>batch ps.
          map (\<lambda>t. fetch_call e (ALPACA_ENDPOINT e) ''/v2/stocks/bars'' ''GET''
                 ([(''timeframe'', Str timeframe), (''limit'', Num 10000),
                   (''start'', Str start), (''end'', Str end'),
                   (''symbols'', Str (join '','' batch))] @
                  (case t of None \<Rightarrow> [] | Some tk \<Rightarrow> [(''page_token'', Str tk)])))
              (None # map next_page_token (butlast ps))) ?batches pss"
    proof (rule map_cong [OF refl])
      fix x assume "x \<in> set (zip ?batches pss)"
      then have "snd x \<in> set pss" using set_zip_rightD [of "fst x" "snd x" ?batches pss] by simp
      from tok [OF this, of "fst x"]
      show "(case x of (batch, ps) \<Rightarrow>
               map (\<lambda>t. fetch_call e (ALPACA_ENDPOINT e) ''/v2/stocks/bars'' ''GET''
                      (bars_params timeframe start end' batch t))
                   (None # map next_page_token (butlast ps))) =
            (case x of (batch, ps) \<Rightarrow>
               map (\<lambda>t. fetch_call e (ALPACA_ENDPOINT e) ''/v2/stocks/bars'' ''GET''
                      ([(''timeframe'', Str timeframe), (''limit'', Num 10000),
                        (''start'', Str start), (''end'', Str end'),
                        (''symbols'', Str (join '','' batch))] @
                       (case t of None \<Rightarrow> [] | Some tk \<Rightarrow> [(''page_token'', Str tk)])))
                   (None # map next_page_token (butlast ps)))"
        by (cases x) simp
    qed
    note run = bars_batches_run [OF assms len runs pw, of timeframe start end' "[]"]
    show ?thesis
      unfolding getStockBars_def
      by (simp only: 1 run calls_eq option.case prod.case sum.case)
  qed
  have 5: "map_of (foldl Object_assign [] (map bars pages)) =
             foldl (++) Map.empty (map (\<lambda>p. map_of (bars p)) pages)"
    if "\<forall>p \<in> set pages. distinct (map fst (bars p))" for pages :: "bars_page list"
    using map_of_foldl_Object_assign [of "map bars pages" "[]"] that
    by (simp add: comp_def)
  show ?thesis using 1 2 3 4 5 by blast
qed

theorem getStockBars_batches_and_pages_witness:
  \<open>getStockBars \<lparr>ALPACA_API_KEY = Some ''key'', ALPACA_SECRET_KEY = Some ''secret'',
                  ALPACA_ENDPOINT = Some ''https://api/'', ALPACA_BROKER_ENDPOINT = None\<rparr>
     (replicate 2000 ''A'' @ [''B'']) ''2021-01-01'' ''2021-01-02'' ''1Day''
     \<lparr>pending = [Ok (Inr \<lparr>next_page_token = Some ''t1'', bars = [(''A'', JNum 1)]\<rparr>),
                  Ok (Inr \<lparr>next_page_token = None, bars = [(''A'', JNum 2)]\<rparr>),
                  Ok (Inr \<lparr>next_page_token = None, bars = [(''B'', JNum 3)]\<rparr>)],
      calls = []\<rparr> =
   Some (\<lparr>content = [\<lparr>type = ''text'', text' = ''{"bars":{"A":2,"B":3}}''\<rparr>],
           isError = False\<rparr>,
         \<lparr>pending = [],
          calls =
            [fetch_call \<lparr>ALPACA_API_KEY = Some ''key'', ALPACA_SECRET_KEY = Some ''secret'',
                  ALPACA_ENDPOINT = Some ''https://api/'', ALPACA_BROKER_ENDPOINT = None\<rparr>
               (Some ''https://api/'') ''/v2/stocks/bars'' ''GET''
               [(''timeframe'', Str ''1Day''), (''limit'', Num 10000),
                (''start'', Str ''2021-01-01''), (''end'', Str ''2021-01-02''),
                (''symbols'', Str (join '','' (replicate 2000 ''A'')))],
             fetch_call \<lparr>ALPACA_API_KEY = Some ''key'', ALPACA_SECRET_KEY = Some ''secret'',
                  ALPACA_ENDPOINT = Some ''https://api/'', ALPACA_BROKER_ENDPOINT = None\<rparr>
               (Some ''https://api/'') ''/v2/stocks/bars'' ''GET''
               [(''timeframe'', Str ''1Day''), (''limit'', Num 10000),
                (''start'', Str ''2021-01-01''), (''end'', Str ''2021-01-02''),
                (''symbols'', Str (join '','' (replicate 2000 ''A''))),
                (''page_token'', Str ''t1'')],
             \<lparr>url = ''https://api//v2/stocks/bars?timeframe=1Day&limit=10000&start=2021-01-01&end=2021-01-02&symbols=B'',
              method' = ''GET'',
              headers = [(''APCA-API-KEY-ID'', ''key''),
                         (''APCA-API-SECRET-KEY'', ''secret'')]\<rparr>]\<rparr>)\<close>
proof -
  let ?e = "\<lparr>ALPACA_API_KEY = Some ''key'', ALPACA_SECRET_KEY = Some ''secret'',
                  ALPACA_ENDPOINT = Some ''https://api/'', ALPACA_BROKER_ENDPOINT = None\<rparr>"
  let ?symbols = "replicate 2000 ''A'' @ [''B'']"
  let ?p1 = "\<lparr>next_page_token = Some ''t1'', bars = [(''A'', JNum 1)]\<rparr>"
  let ?p2 = "\<lparr>next_page_token = None, bars = [(''A'', JNum 2)]\<rparr>"
  let ?p3 = "\<lparr>next_page_token = None, bars = [(''B'', JNum 3)]\<rparr>"
  let ?w = "\<lparr>pending = [Ok (Inr ?p1), Ok (Inr ?p2), Ok (Inr ?p3)], calls = []\<rparr>"
  let ?pss = "[[?p1, ?p2], [?p3]]"
  have k: "truthy_string (ALPACA_API_KEY ?e)" and s: "truthy_string (ALPACA_SECRET_KEY ?e)"
    by simp_all
  have c2: "chunks 2000 [''B''] = [[''B'']]"
    by (simp add: chunks_step)
  have "chunks 2000 ?symbols = take 2000 ?symbols # chunks 2000 (drop 2000 ?symbols)"
    by (rule chunks_step) simp_all
  then have c1: "chunks 2000 ?symbols = [replicate 2000 ''A'', [''B'']]"
    using c2 by simp
  have b: "getBatches ?symbols 2000 = Some [replicate 2000 ''A'', [''B'']]"
    using getBatches_chunks [of 2000 ?symbols] c1 by simp
  have len: "length ?pss = length [replicate 2000 ''A'', [''B'']]" by simp
  have runs: "\<forall>ps \<in> set ?pss. ps \<noteq> []
                 \<and> (\<forall>p \<in> set (butlast ps). truthy_string (next_page_token p))
                 \<and> \<not> truthy_string (next_page_token (last ps))"
    by simp
  have pw: "pending ?w = map (\<lambda>p. Ok (Inr p)) (concat ?pss) @ []" by simp
  have u: "fetch_call ?e (Some ''https://api/'') ''/v2/stocks/bars'' ''GET''
             [(''timeframe'', Str ''1Day''), (''limit'', Num 10000),
              (''start'', Str ''2021-01-01''), (''end'', Str ''2021-01-02''),
              (''symbols'', Str ''B'')] =
           \<lparr>url = ''https://api//v2/stocks/bars?timeframe=1Day&limit=10000&start=2021-01-01&end=2021-01-02&symbols=B'',
            method' = ''GET'',
            headers = [(''APCA-API-KEY-ID'', ''key''), (''APCA-API-SECRET-KEY'', ''secret'')]\<rparr>"
    by (simp add: fetch_call_def Let_def URLSearchParams_toString_def urlencode_def
        urlencode_char_def hex_upper_def show_int_def show_nat.simps)
  have j: \<open>JSON_stringify (JObj [(''bars'',
             JObj (foldl Object_assign [] (map bars (concat ?pss))))]) = ''{"bars":{"A":2,"B":3}}''\<close>
    by (simp add: Object_assign_def quote_def escape_char_def show_int_def show_nat.simps)
  from getStockBars_batches_and_pages [OF k s, of ?symbols ?w "''2021-01-01''" "''2021-01-02''" "''1Day''"]
  obtain batches where
    gb: "getBatches ?symbols 2000 = Some batches" and
    run: "\<And>pss rest. length pss = length batches \<Longrightarrow>
           (\<forall>ps \<in> set pss. ps \<noteq> []
                 \<and> (\<forall>p \<in> set (butlast ps). truthy_string (next_page_token p))
                 \<and> \<not> truthy_string (next_page_token (last ps))) \<Longrightarrow>
           pending ?w = map (\<lambda>p. Ok (Inr p)) (concat pss) @ rest \<Longrightarrow>
           getStockBars ?e ?symbols ''2021-01-01'' ''2021-01-02'' ''1Day'' ?w =
             Some (\<lparr>content = [\<lparr>type = ''text'',
                      text' = JSON_stringify (JObj [(''bars'',
                        JObj (foldl Object_assign [] (map bars (concat pss))))])\<rparr>],
                     isError = False\<rparr>,
                   \<lparr>pending = rest,
                    calls = calls ?w @
                      concat (map2 (\<lambda>batch ps.
                        map (\<lambda>t. fetch_call ?e (ALPACA_ENDPOINT ?e) ''/v2/stocks/bars'' ''GET''
                               ([(''timeframe'', Str ''1Day''), (''limit'', Num 10000),
                                 (''start'', Str ''2021-01-01''), (''end'', Str ''2021-01-02''),
                                 (''symbols'', Str (join '','' batch))] @
                                (case t of None \<Rightarrow> []
                                 | Some tk \<Rightarrow> [(''page_token'', Str tk)])))
                            (None # map next_page_token (butlast ps)))
                        batches pss)\<rparr>)"
    by blast
  have bs: "batches = [replicate 2000 ''A'', [''B'']]" using gb b by simp
  from run [of ?pss "[]"] len runs pw
  show ?thesis
    unfolding bs by (simp only: j) (simp add: u del: JSON_stringify.simps replicate.simps)
qed

text \<open>
  Claim C6. No fetcher lets an error of the request helper through: it returns the envelope
  with \<open>isError\<close> set whose text is its own prefix followed by the message of the error.
  With the credentials configured the error comes from an answer of the network (the call
  fails, the status is not a success, or the body does not decode), possibly after pages, and
  for \<open>getStockBars\<close> after whole batches, that were fetched with success: what these had
  delivered is not in the envelope, and the failing request is the last one made, the
  remaining pages and batches are not asked for. Without the credentials the error is the
  configuration error of the first request.
\<close>

theorem fetchers_catch_errors:
  \<open>(truthy_string (ALPACA_API_KEY e) \<and> truthy_string (ALPACA_SECRET_KEY e) \<longrightarrow>
       (pending wa = fa # ra \<and> response_result fa = Inl erra \<longrightarrow>
            (\<exists>call. getAssets e assetClass wa =
               Some (\<lparr>content = [\<lparr>type = ''text'',
                        text' = ''Error fetching assets: '' @ message erra\<rparr>],
                       isError = True\<rparr>,
                     \<lparr>pending = ra, calls = calls wa @ [call]\<rparr>)))
       \<and> (pending wd = fd # rd \<and> response_result fd = Inl errd \<longrightarrow>
            (\<exists>call. getMarketDays e start end' wd =
               Some (\<lparr>content = [\<lparr>type = ''text'',
                        text' = ''Error fetching market days: '' @ message errd\<rparr>],
                       isError = True\<rparr>,
                     \<lparr>pending = rd, calls = calls wd @ [call]\<rparr>)))
       \<and> ((\<forall>p \<in> set gn. truthy_string (next_page_token p))
            \<and> pending wn = map (\<lambda>p. Ok (Inr p)) gn @ fn # rn
            \<and> response_result fn = Inl errn \<longrightarrow>
            (\<exists>cs. length cs = length gn + 1
               \<and> getNews e start end' symbols wn =
                   Some (\<lparr>content = [\<lparr>type = ''text'',
                            text' = ''Error fetching news: '' @ message errn\<rparr>],
                           isError = True\<rparr>,
                         \<lparr>pending = rn, calls = calls wn @ cs\<rparr>)))
       \<and> (getBatches symbols 2000 = Some (finished @ current # remaining)
            \<and> length pss = length finished
            \<and> (\<forall>ps \<in> set pss. ps \<noteq> []
                  \<and> (\<forall>p \<in> set (butlast ps). truthy_string (next_page_token p))
                  \<and> \<not> truthy_string (next_page_token (last ps)))
            \<and> (\<forall>p \<in> set gb. truthy_string (next_page_token p))
            \<and> pending wb = map (\<lambda>p. Ok (Inr p)) (concat pss @ gb) @ fb # rb
            \<and> response_result fb = Inl errb \<longrightarrow>
            (\<exists>cs. length cs = length (concat pss) + length gb + 1
               \<and> getStockBars e symbols start end' timeframe wb =
                   Some (\<lparr>content = [\<lparr>type = ''text'',
                            text' = ''Error fetching stock bars: '' @ message errb\<rparr>],
                           isError = True\<rparr>,
                         \<lparr>pending = rb, calls = calls wb @ cs\<rparr>))))
   \<and> (\<not> (truthy_string (ALPACA_API_KEY e) \<and> truthy_string (ALPACA_SECRET_KEY e)) \<longrightarrow>
         getAssets e assetClass wa =
           Some (\<lparr>content = [\<lparr>type = ''text'', text' = ''Error fetching assets: '' @
               ''Alpaca credentials not configured. Set ALPACA_API_KEY and ALPACA_SECRET_KEY.''\<rparr>],
             isError = True\<rparr>, wa)
       \<and> getMarketDays e start end' wd =
           Some (\<lparr>content = [\<lparr>type = ''text'', text' = ''Error fetching market days: '' @
               ''Alpaca credentials not configured. Set ALPACA_API_KEY and ALPACA_SECRET_KEY.''\<rparr>],
             isError = True\<rparr>, wd)
       \<and> getNews e start end' symbols wn =
           Some (\<lparr>content = [\<lparr>type = ''text'', text' = ''Error fetching news: '' @
               ''Alpaca credentials not configured. Set ALPACA_API_KEY and ALPACA_SECRET_KEY.''\<rparr>],
             isError = True\<rparr>, wn)
       \<and> (symbols \<noteq> [] \<longrightarrow>
           getStockBars e symbols start end' timeframe wb =
             Some (\<lparr>content = [\<lparr>type = ''text'', text' = ''Error fetching stock bars: '' @
                 ''Alpaca credentials not configured. Set ALPACA_API_KEY and ALPACA_SECRET_KEY.''\<rparr>],
               isError = True\<rparr>, wb)))\<close>
proof -
  have A: "\<exists>call. getAssets e assetClass wa =
               Some (\<lparr>content = [\<lparr>type = ''text'',
                        text' = ''Error fetching assets: '' @ message erra\<rparr>],
                       isError = True\<rparr>,
                     \<lparr>pending = ra, calls = calls wa @ [call]\<rparr>)"
    if c: "truthy_string (ALPACA_API_KEY e)" "truthy_string (ALPACA_SECRET_KEY e)"
      and p: "pending wa = fa # ra" and f: "response_result fa = Inl erra"
    unfolding getAssets_def Let_def
    by (simp add: request_answered [OF c p] f)
  have D: "\<exists>call. getMarketDays e start end' wd =
               Some (\<lparr>content = [\<lparr>type = ''text'',
                        text' = ''Error fetching market days: '' @ message errd\<rparr>],
                       isError = True\<rparr>,
                     \<lparr>pending = rd, calls = calls wd @ [call]\<rparr>)"
    if c: "truthy_string (ALPACA_API_KEY e)" "truthy_string (ALPACA_SECRET_KEY e)"
      and p: "pending wd = fd # rd" and f: "response_result fd = Inl errd"
    unfolding getMarketDays_def
    by (simp add: request_answered [OF c p] f)
  have N: "\<exists>cs. length cs = length gn + 1
               \<and> getNews e start end' symbols wn =
                   Some (\<lparr>content = [\<lparr>type = ''text'',
                            text' = ''Error fetching news: '' @ message errn\<rparr>],
                           isError = True\<rparr>,
                         \<lparr>pending = rn, calls = calls wn @ cs\<rparr>)"
    if c: "truthy_string (ALPACA_API_KEY e)" "truthy_string (ALPACA_SECRET_KEY e)"
      and g: "\<forall>p \<in> set gn. truthy_string (next_page_token p)"
      and pw: "pending wn = map (\<lambda>p. Ok (Inr p)) gn @ fn # rn"
      and f: "response_result fn = Inl errn"
  proof -
    note ab = news_pages_abort [OF c f g pw, of start end' symbols None "[]"]
    show ?thesis
      unfolding getNews_def
      by (rule exI [of _ "map (\<lambda>t. fetch_call e (ALPACA_ENDPOINT e) ''/v1beta1/news'' ''GET''
                           (news_params start end' symbols t)) (None # map next_page_token gn)"])
         (simp add: ab)
  qed
  have B: "\<exists>cs. length cs = length (concat pss) + length gb + 1
               \<and> getStockBars e symbols start end' timeframe wb =
                   Some (\<lparr>content = [\<lparr>type = ''text'',
                            text' = ''Error fetching stock bars: '' @ message errb\<rparr>],
                           isError = True\<rparr>,
                         \<lparr>pending = rb, calls = calls wb @ cs\<rparr>)"
    if c: "truthy_string (ALPACA_API_KEY e)" "truthy_string (ALPACA_SECRET_KEY e)"
      and gbt: "getBatches symbols 2000 = Some (finished @ current # remaining)"
      and len: "length pss = length finished"
      and runs: "\<forall>ps \<in> set pss. ps \<noteq> []
                  \<and> (\<forall>p \<in> set (butlast ps). truthy_string (next_page_token p))
                  \<and> \<not> truthy_string (next_page_token (last ps))"
      and g: "\<forall>p \<in> set gb. truthy_string (next_page_token p)"
      and pw: "pending wb = map (\<lambda>p. Ok (Inr p)) (concat pss @ gb) @ fb # rb"
      and f: "response_result fb = Inl errb"
  proof -
    note ab = bars_batches_abort [OF c f len runs g pw, of timeframe start end' current remaining "[]"]
    let ?done_calls = "map2 (\<lambda>batch ps.
                   map (\<lambda>t. fetch_call e (ALPACA_ENDPOINT e) ''/v2/stocks/bars'' ''GET''
                              (bars_params timeframe start end' batch t))
                       (None # map next_page_token (butlast ps))) finished pss"
    have "length (concat ?done_calls) = length (concat pss)"
      using len runs
    proof (induction finished pss rule: list_induct2')
      case (4 x xs y ys)
      then have "y \<noteq> []" by simp
      then have "length (butlast y) + 1 = length y" by simp
      then show ?case using 4 by simp
    qed simp_all
    then show ?thesis
      unfolding getStockBars_def
      by (intro exI [of _ "concat ?done_calls @
             map (\<lambda>t. fetch_call e (ALPACA_ENDPOINT e) ''/v2/stocks/bars'' ''GET''
                        (bars_params timeframe start end' current t))
                 (None # map next_page_token gb)"])
         (simp add: gbt ab)
  qed
  have M: "getAssets e assetClass wa =
           Some (\<lparr>content = [\<lparr>type = ''text'', text' = ''Error fetching assets: '' @
               ''Alpaca credentials not configured. Set ALPACA_API_KEY and ALPACA_SECRET_KEY.''\<rparr>],
             isError = True\<rparr>, wa)
       \<and> getMarketDays e start end' wd =
           Some (\<lparr>content = [\<lparr>type = ''text'', text' = ''Error fetching market days: '' @
               ''Alpaca credentials not configured. Set ALPACA_API_KEY and ALPACA_SECRET_KEY.''\<rparr>],
             isError = True\<rparr>, wd)
       \<and> getNews e start end' symbols wn =
           Some (\<lparr>content = [\<lparr>type = ''text'', text' = ''Error fetching news: '' @
               ''Alpaca credentials not configured. Set ALPACA_API_KEY and ALPACA_SECRET_KEY.''\<rparr>],
             isError = True\<rparr>, wn)
       \<and> (symbols \<noteq> [] \<longrightarrow>
           getStockBars e symbols start end' timeframe wb =
             Some (\<lparr>content = [\<lparr>type = ''text'', text' = ''Error fetching stock bars: '' @
                 ''Alpaca credentials not configured. Set ALPACA_API_KEY and ALPACA_SECRET_KEY.''\<rparr>],
               isError = True\<rparr>, wb))"
    if "\<not> (truthy_string (ALPACA_API_KEY e) \<and> truthy_string (ALPACA_SECRET_KEY e))"
  proof -
    have m: "\<not> truthy_string (ALPACA_API_KEY e) \<or> \<not> truthy_string (ALPACA_SECRET_KEY e)"
      using that by simp
    show ?thesis
      using getAssets_missing_credentials [OF m] getMarketDays_missing_credentials [OF m]
        getNews_missing_credentials [OF m] getStockBars_missing_credentials [OF m]
      by blast
  qed
  show ?thesis using A D N B M by blast
qed

theorem fetchers_catch_errors_witness:
  \<open>(\<exists>cs. length cs = 2
      \<and> getStockBars \<lparr>ALPACA_API_KEY = Some ''key'', ALPACA_SECRET_KEY = Some ''secret'',
                  ALPACA_ENDPOINT = Some ''https://api/'', ALPACA_BROKER_ENDPOINT = None\<rparr>
           [''A''] ''2021-01-01'' ''2021-01-02'' ''1Day''
           \<lparr>pending = [Ok (Inr \<lparr>next_page_token = Some ''t1'', bars = [(''A'', JNum 1)]\<rparr>),
                        NotOk 500 ''Error'' (Inr (JObj [(''message'', JStr ''fail'')])),
                        Ok (Inr \<lparr>next_page_token = None, bars = [(''A'', JNum 2)]\<rparr>)],
            calls = []\<rparr> =
         Some (\<lparr>content = [\<lparr>type = ''text'',
                  text' = ''Error fetching stock bars: 500 Error - {"message":"fail"}''\<rparr>],
                 isError = True\<rparr>,
               \<lparr>pending = [Ok (Inr \<lparr>next_page_token = None, bars = [(''A'', JNum 2)]\<rparr>)],
                calls = cs\<rparr>))
   \<and> (\<exists>cs. length cs = 1
      \<and> getNews \<lparr>ALPACA_API_KEY = Some ''key'', ALPACA_SECRET_KEY = Some ''secret'',
                  ALPACA_ENDPOINT = Some ''https://api/'', ALPACA_BROKER_ENDPOINT = None\<rparr>
           ''2021-01-01'' ''2021-01-02'' [''A'']
           \<lparr>pending = [Rejected ''connect ECONNREFUSED''], calls = []\<rparr> =
         Some (\<lparr>content = [\<lparr>type = ''text'',
                  text' = ''Error fetching news: connect ECONNREFUSED''\<rparr>],
                 isError = True\<rparr>,
               \<lparr>pending = [], calls = cs\<rparr>))\<close>
proof -
  let ?e = "\<lparr>ALPACA_API_KEY = Some ''key'', ALPACA_SECRET_KEY = Some ''secret'',
                  ALPACA_ENDPOINT = Some ''https://api/'', ALPACA_BROKER_ENDPOINT = None\<rparr>"
  let ?g = "\<lparr>next_page_token = Some ''t1'', bars = [(''A'', JNum 1)]\<rparr>"
  let ?f = "NotOk 500 ''Error'' (Inr (JObj [(''message'', JStr ''fail'')])) :: bars_page fetched"
  let ?l = "Ok (Inr \<lparr>next_page_token = None, bars = [(''A'', JNum 2)]\<rparr>)"
  let ?wb = "\<lparr>pending = [Ok (Inr ?g), ?f, ?l], calls = []\<rparr>"
  let ?fn = "Rejected ''connect ECONNREFUSED'' :: news_page fetched"
  let ?wn = "\<lparr>pending = [?fn], calls = []\<rparr>"
  have c: "truthy_string (ALPACA_API_KEY ?e) \<and> truthy_string (ALPACA_SECRET_KEY ?e)"
    by simp
  have gb: "getBatches [''A''] 2000 = Some ([] @ [''A''] # [])"
    by (simp add: getBatches_def getBatches_loop.simps slice_def)
  have fb: \<open>response_result ?f = Inl (Error ''500 Error - {"message":"fail"}'')\<close>
    by (simp add: show_nat.simps quote_def escape_char_def)
  have hb: \<open>getBatches [''A''] 2000 = Some ([] @ [''A''] # [])
            \<and> length ([] :: bars_page list list) = length ([] :: string list list)
            \<and> (\<forall>ps \<in> set ([] :: bars_page list list). ps \<noteq> []
                  \<and> (\<forall>p \<in> set (butlast ps). truthy_string (next_page_token p))
                  \<and> \<not> truthy_string (next_page_token (last ps)))
            \<and> (\<forall>p \<in> set [?g]. truthy_string (next_page_token p))
            \<and> pending ?wb = map (\<lambda>p. Ok (Inr p)) (concat [] @ [?g]) @ ?f # [?l]
            \<and> response_result ?f = Inl (Error ''500 Error - {"message":"fail"}'')\<close>
    using gb fb by simp
  have hn: "(\<forall>p \<in> set ([] :: news_page list). truthy_string (next_page_token p))
            \<and> pending ?wn = map (\<lambda>p. Ok (Inr p)) [] @ ?fn # []
            \<and> response_result ?fn = Inl (Error ''connect ECONNREFUSED'')"
    by simp
  note t = fetchers_catch_errors [where e = ?e and symbols = "[''A'']" and finished = "[]"
      and current = "[''A'']" and remaining = "[]" and pss = "[]" and gb = "[?g]"
      and wb = ?wb and fb = ?f and rb = "[?l]"
      and errb = \<open>Error ''500 Error - {"message":"fail"}''\<close>
      and start = "''2021-01-01''" and end' = "''2021-01-02''" and timeframe = "''1Day''"
      and gn = "[]" and wn = ?wn and fn = ?fn and rn = "[]"
      and errn = "Error ''connect ECONNREFUSED''"]
  note t1 = mp [OF conjunct1 [OF t] c]
  note tB = mp [OF conjunct2 [OF conjunct2 [OF conjunct2 [OF t1]]] hb]
  note tN = mp [OF conjunct1 [OF conjunct2 [OF conjunct2 [OF t1]]] hn]
  have B: \<open>\<exists>cs. length cs = 2
       \<and> getStockBars ?e [''A''] ''2021-01-01'' ''2021-01-02'' ''1Day'' ?wb =
           Some (\<lparr>content = [\<lparr>type = ''text'',
                    text' = ''Error fetching stock bars: 500 Error - {"message":"fail"}''\<rparr>],
                   isError = True\<rparr>,
                 \<lparr>pending = [?l], calls = cs\<rparr>)\<close>
    using tB by (simp add: numeral_2_eq_2)
  have N: "\<exists>cs. length cs = 1
       \<and> getNews ?e ''2021-01-01'' ''2021-01-02'' [''A''] ?wn =
           Some (\<lparr>content = [\<lparr>type = ''text'',
                    text' = ''Error fetching news: connect ECONNREFUSED''\<rparr>],
                   isError = True\<rparr>,
                 \<lparr>pending = [], calls = cs\<rparr>)"
    using tN by simp
  show ?thesis using B N by (rule conjI)
qed

end
